theory Spec2Isabelle
  imports Main "HOL-Library.AList" "HOL-Library.Sublist" "HOL-Library.Option_ord"
    "HOL-Library.Multiset"
begin

section \<open>Python strings\<close>

text \<open>
  A Python \<^verbatim>\<open>str\<close> is a \<^typ>\<open>string\<close>; a character stands for the code point of the
  same number, so the model covers the texts whose code points lie below 256.
  \<^verbatim>\<open>str.isspace\<close> holds of twelve of them.
\<close>

definition isspace :: "char \<Rightarrow> bool" where
  "isspace c \<longleftrightarrow>
     c \<in> set [CHR 0x09, CHR 0x0A, CHR 0x0B, CHR 0x0C, CHR 0x0D, CHR 0x1C, CHR 0x1D,
              CHR 0x1E, CHR 0x1F, CHR 0x20, CHR 0x85, CHR 0xA0]"

definition strip :: "string \<Rightarrow> string" where
  "strip s = rev (dropWhile isspace (rev (dropWhile isspace s)))"

fun startswith :: "string \<Rightarrow> string \<Rightarrow> bool" where
  "startswith s [] = True"
| "startswith [] (p # ps) = False"
| "startswith (c # cs) (p # ps) = (c = p \<and> startswith cs ps)"

definition endswith :: "string \<Rightarrow> string \<Rightarrow> bool" where
  "endswith s suf = startswith (rev s) (rev suf)"

text \<open>
  \<^verbatim>\<open>s.replace(old, new)\<close> replaces the occurrences of \<open>old\<close> found from left to right,
  without overlap; an empty \<open>old\<close> matches before every character and at the end.
\<close>

fun replace :: "string \<Rightarrow> string \<Rightarrow> string \<Rightarrow> string" where
  "replace [] old new = (if old = [] then new else [])"
| "replace (c # cs) old new =
     (if old = [] then new @ c # replace cs old new
      else if startswith (c # cs) old then new @ replace (drop (length old) (c # cs)) old new
      else c # replace cs old new)"

section \<open>Exceptions and values\<close>

text \<open>
  Every exception carries the text that \<^verbatim>\<open>str(e)\<close> returns. The handlers of the
  server tell \<^verbatim>\<open>json.JSONDecodeError\<close> from the other subclasses of \<^verbatim>\<open>Exception\<close>
  and nothing more.
\<close>

datatype exn =
    JSONDecodeError string
  | FileNotFoundError string
  | PermissionError string
  | TypeError string
  | AttributeError string
  | OverflowError string
  | Exception string

fun str_exn :: "exn \<Rightarrow> string" where
  "str_exn (JSONDecodeError m) = m"
| "str_exn (FileNotFoundError m) = m"
| "str_exn (PermissionError m) = m"
| "str_exn (TypeError m) = m"
| "str_exn (AttributeError m) = m"
| "str_exn (OverflowError m) = m"
| "str_exn (Exception m) = m"

text \<open>
  The values the server stores and returns: what \<^verbatim>\<open>json.loads\<close> builds, and the
  \<^verbatim>\<open>datetime\<close> and \<^verbatim>\<open>ObjectId\<close> of a stored document. A float is kept as the
  literal it was read from; a point in time is a number of clock ticks. A
  \<^verbatim>\<open>dict\<close> is an association list in insertion order, its keys distinct.
\<close>

datatype pyval =
    PNone
  | PBool bool
  | PInt int
  | PFloat string
  | PStr string
  | PList "pyval list"
  | PDict "(string \<times> pyval) list"
  | PDatetime nat
  | PObjectId nat

type_synonym pydict = "(string \<times> pyval) list"

definition dict_get :: "pydict \<Rightarrow> string \<Rightarrow> pyval \<Rightarrow> pyval" where
  "dict_get d k dflt = (case map_of d k of Some v \<Rightarrow> v | None \<Rightarrow> dflt)"

definition dict_in :: "string \<Rightarrow> pydict \<Rightarrow> bool" where
  "dict_in k d \<longleftrightarrow> map_of d k \<noteq> None"

definition dict_set :: "pydict \<Rightarrow> string \<Rightarrow> pyval \<Rightarrow> pydict" where
  "dict_set d k v = AList.update k v d"

definition dict_del :: "pydict \<Rightarrow> string \<Rightarrow> pydict" where
  "dict_del d k = AList.delete k d"

fun type_name :: "pyval \<Rightarrow> string" where
  "type_name PNone = ''NoneType''"
| "type_name (PBool b) = ''bool''"
| "type_name (PInt i) = ''int''"
| "type_name (PFloat f) = ''float''"
| "type_name (PStr s) = ''str''"
| "type_name (PList xs) = ''list''"
| "type_name (PDict d) = ''dict''"
| "type_name (PDatetime t) = ''datetime.datetime''"
| "type_name (PObjectId i) = ''ObjectId''"

section \<open>A decoder for JSON\<close>

text \<open>
  The background task calls \<^verbatim>\<open>json.loads\<close> of the standard library, and the model
  takes the decoder as a parameter. \<open>json_decode\<close> is the instance used to run the
  model on concrete responses: it reads the grammar of \<^verbatim>\<open>json.loads\<close> (objects,
  arrays, strings with their escapes, numbers, \<^verbatim>\<open>true\<close>, \<^verbatim>\<open>false\<close>, \<^verbatim>\<open>null\<close>,
  \<^verbatim>\<open>NaN\<close> and the infinities, white space between tokens), keeps the last value of
  a repeated key at the place of the first, and reports every failure as a
  \<^verbatim>\<open>JSONDecodeError\<close> whose message leaves the position out. A four-digit
  hexadecimal escape is read when its code point lies below 256.
\<close>

datatype token = TLBrace | TRBrace | TLBracket | TRBracket | TComma | TColon | TLit pyval

definition json_ws :: "char \<Rightarrow> bool" where
  "json_ws c \<longleftrightarrow> c \<in> set [CHR 0x20, CHR 0x09, CHR 0x0A, CHR 0x0D]"

definition is_digit :: "char \<Rightarrow> bool" where
  "is_digit c \<longleftrightarrow> c \<in> set ''0123456789''"

definition digit_val :: "char \<Rightarrow> nat" where
  "digit_val c = of_char c - 48"

definition hex_val :: "char \<Rightarrow> nat option" where
  "hex_val c =
     (if is_digit c then Some (digit_val c)
      else if c \<in> set ''abcdef'' then Some (of_char c - 87)
      else if c \<in> set ''ABCDEF'' then Some (of_char c - 55)
      else None)"

definition unescape :: "char \<Rightarrow> char option" where
  "unescape e =
     map_of [(CHR 0x22, CHR 0x22), (CHR 0x5C, CHR 0x5C), (CHR ''/'', CHR ''/''),
             (CHR ''b'', CHR 0x08), (CHR ''f'', CHR 0x0C), (CHR ''n'', CHR 0x0A),
             (CHR ''r'', CHR 0x0D), (CHR ''t'', CHR 0x09)] e"

text \<open>
  The body of a string, read after its opening quote: the decoded text and the input
  after the closing quote. A control character inside a string is refused.
\<close>

datatype scan = Plain | Escaped | Hex "nat list"

fun scanstring :: "scan \<Rightarrow> string \<Rightarrow> string \<Rightarrow> (string \<times> string) option" where
  "scanstring st acc [] = None"
| "scanstring Plain acc (c # cs) =
     (if c = CHR 0x22 then Some (rev acc, cs)
      else if c = CHR 0x5C then scanstring Escaped acc cs
      else if (of_char c :: nat) < 32 then None
      else scanstring Plain (c # acc) cs)"
| "scanstring Escaped acc (c # cs) =
     (if c = CHR ''u'' then scanstring (Hex []) acc cs
      else (case unescape c of None \<Rightarrow> None | Some x \<Rightarrow> scanstring Plain (x # acc) cs))"
| "scanstring (Hex ds) acc (c # cs) =
     (case hex_val c of
        None \<Rightarrow> None
      | Some d \<Rightarrow>
          if length ds < 3 then scanstring (Hex (ds @ [d])) acc cs
          else (let n = foldl (\<lambda>a x. 16 * a + x) 0 (ds @ [d])
                in if n < 256 then scanstring Plain (char_of n # acc) cs else None))"

text \<open>
  A number is the longest text of the form \<^verbatim>\<open>-?(0|[1-9][0-9]*)(.[0-9]+)?([eE][-+]?[0-9]+)?\<close>;
  without fraction and exponent it is an \<^verbatim>\<open>int\<close>.
\<close>

definition number_sign :: "string \<Rightarrow> string" where
  "number_sign s = (if startswith s ''-'' then ''-'' else [])"

definition int_part :: "string \<Rightarrow> string" where
  "int_part s = (if startswith s ''0'' then ''0'' else takeWhile is_digit s)"

definition frac_part :: "string \<Rightarrow> string" where
  "frac_part s =
     (case s of
        [] \<Rightarrow> []
      | d # r \<Rightarrow> if d = CHR ''.'' \<and> takeWhile is_digit r \<noteq> []
                 then d # takeWhile is_digit r else [])"

definition exp_part :: "string \<Rightarrow> string" where
  "exp_part s =
     (case s of
        [] \<Rightarrow> []
      | e # r \<Rightarrow>
          if e \<in> set ''eE''
          then (let sg = (if startswith r ''-'' then ''-''
                          else if startswith r ''+'' then ''+'' else []);
                    ds = takeWhile is_digit (drop (length sg) r)
                in if ds = [] then [] else e # sg @ ds)
          else [])"

definition match_number :: "string \<Rightarrow> (pyval \<times> string) option" where
  "match_number s =
     (let sign = number_sign s;
          s1 = drop (length sign) s;
          intpart = int_part s1;
          s2 = drop (length intpart) s1;
          frac = frac_part s2;
          s3 = drop (length frac) s2;
          ex = exp_part s3;
          rest = drop (length ex) s3
      in if intpart = [] then None
         else if frac = [] \<and> ex = []
         then Some (PInt ((if sign = [] then 1 else -1) *
                          int (foldl (\<lambda>a c. 10 * a + digit_val c) 0 intpart)), rest)
         else Some (PFloat (sign @ intpart @ frac @ ex), rest))"

definition constants :: "(string \<times> pyval) list" where
  "constants = [(''null'', PNone), (''true'', PBool True), (''false'', PBool False),
                (''NaN'', PFloat ''NaN''), (''Infinity'', PFloat ''Infinity''),
                (''-Infinity'', PFloat ''-Infinity'')]"

definition match_constant :: "string \<Rightarrow> (pyval \<times> string) option" where
  "match_constant s =
     (case List.find (\<lambda>(w, v). startswith s w) constants of
        None \<Rightarrow> None
      | Some (w, v) \<Rightarrow> Some (v, drop (length w) s))"

definition punctuation :: "(char \<times> token) list" where
  "punctuation = [(CHR ''{'', TLBrace), (CHR ''}'', TRBrace), (CHR ''['', TLBracket),
                  (CHR '']'', TRBracket), (CHR '','', TComma), (CHR '':'', TColon)]"

definition next_token :: "string \<Rightarrow> (token \<times> string) option" where
  "next_token s =
     (case s of
        [] \<Rightarrow> None
      | c # cs \<Rightarrow>
          (case map_of punctuation c of
             Some t \<Rightarrow> Some (t, cs)
           | None \<Rightarrow>
               if c = CHR 0x22
               then map_option (\<lambda>(x, r). (TLit (PStr x), r)) (scanstring Plain [] cs)
               else (case match_number s of
                       Some (v, r) \<Rightarrow> Some (TLit v, r)
                     | None \<Rightarrow> map_option (\<lambda>(v, r). (TLit v, r)) (match_constant s))))"

text \<open>Every token takes at least one character, so the tokenizer ends.\<close>

lemma scanstring_length: "scanstring st acc s = Some (x, r) \<Longrightarrow> length r < length s"
  by (induction st acc s rule: scanstring.induct)
     (fastforce split: if_splits option.splits simp: Let_def)+

lemma match_number_length: "match_number s = Some (v, r) \<Longrightarrow> length r < length s"
  by (cases s)
     (auto simp: match_number_def number_sign_def int_part_def Let_def split: if_splits)

lemma match_constant_length: "match_constant s = Some (v, r) \<Longrightarrow> length r < length s"
  by (cases s) (auto simp: match_constant_def constants_def split: if_splits)

lemma next_token_length: "next_token s = Some (t, r) \<Longrightarrow> length r < length s"
  by (cases s)
     (auto simp: next_token_def split: option.splits if_splits
           dest: scanstring_length match_number_length match_constant_length)

function tokenize :: "string \<Rightarrow> token list option" where
  "tokenize [] = Some []"
| "tokenize (c # cs) =
     (if json_ws c then tokenize cs
      else (case next_token (c # cs) of
              None \<Rightarrow> None
            | Some (t, r) \<Rightarrow> map_option ((#) t) (tokenize r)))"
  by pat_completeness auto
termination
  by (relation "measure length") (auto dest: next_token_length)


text \<open>
  The tokens are read one by one against a stack of the open arrays and objects:
  \<open>FKey d k\<close> is an object that waits for the value of its key \<open>k\<close>.
\<close>

datatype frame = FArr "pyval list" | FObj pydict | FKey pydict string

datatype expect = Value | ValueOrEnd | KeyOrEnd | Key | Colon | CommaOrEnd | Finished pyval

definition put_value :: "pyval \<Rightarrow> frame list \<Rightarrow> exn + frame list \<times> expect" where
  "put_value v stack =
     (case stack of
        [] \<Rightarrow> Inr ([], Finished v)
      | FArr xs # st \<Rightarrow> Inr (FArr (xs @ [v]) # st, CommaOrEnd)
      | FKey d k # st \<Rightarrow> Inr (FObj (dict_set d k v) # st, CommaOrEnd)
      | FObj d # st \<Rightarrow> Inl (JSONDecodeError ''Expecting property name enclosed in double quotes''))"

definition take_value :: "token \<Rightarrow> frame list \<Rightarrow> exn + frame list \<times> expect" where
  "take_value t stack =
     (case t of
        TLit v \<Rightarrow> put_value v stack
      | TLBracket \<Rightarrow> Inr (FArr [] # stack, ValueOrEnd)
      | TLBrace \<Rightarrow> Inr (FObj [] # stack, KeyOrEnd)
      | _ \<Rightarrow> Inl (JSONDecodeError ''Expecting value''))"

definition take_key :: "token \<Rightarrow> frame list \<Rightarrow> exn + frame list \<times> expect" where
  "take_key t stack =
     (case (t, stack) of
        (TLit (PStr k), FObj d # st) \<Rightarrow> Inr (FKey d k # st, Colon)
      | _ \<Rightarrow> Inl (JSONDecodeError ''Expecting property name enclosed in double quotes''))"

definition close_frame :: "token \<Rightarrow> frame list \<Rightarrow> exn + frame list \<times> expect" where
  "close_frame t stack =
     (case (t, stack) of
        (TRBracket, FArr xs # st) \<Rightarrow> put_value (PList xs) st
      | (TRBrace, FObj d # st) \<Rightarrow> put_value (PDict d) st
      | _ \<Rightarrow> Inl (JSONDecodeError ''Expecting value''))"

definition step :: "token \<Rightarrow> frame list \<times> expect \<Rightarrow> exn + frame list \<times> expect" where
  "step t state =
     (case state of
        (stack, Value) \<Rightarrow> take_value t stack
      | (stack, ValueOrEnd) \<Rightarrow> if t = TRBracket then close_frame t stack else take_value t stack
      | (stack, KeyOrEnd) \<Rightarrow> if t = TRBrace then close_frame t stack else take_key t stack
      | (stack, Key) \<Rightarrow> take_key t stack
      | (stack, Colon) \<Rightarrow>
          if t = TColon then Inr (stack, Value)
          else Inl (JSONDecodeError ''Expecting : delimiter'')
      | (stack, CommaOrEnd) \<Rightarrow>
          (case (t, stack) of
             (TComma, FArr xs # st) \<Rightarrow> Inr (stack, Value)
           | (TComma, FObj d # st) \<Rightarrow> Inr (stack, Key)
           | (TRBracket, FArr xs # st) \<Rightarrow> close_frame t stack
           | (TRBrace, FObj d # st) \<Rightarrow> close_frame t stack
           | _ \<Rightarrow> Inl (JSONDecodeError ''Expecting , delimiter''))
      | (stack, Finished v) \<Rightarrow> Inl (JSONDecodeError ''Extra data''))"

fun parse_tokens :: "frame list \<times> expect \<Rightarrow> token list \<Rightarrow> exn + pyval" where
  "parse_tokens state [] =
     (case state of
        (stack, Finished v) \<Rightarrow> Inr v
      | _ \<Rightarrow> Inl (JSONDecodeError ''Expecting value''))"
| "parse_tokens state (t # ts) =
     (case step t state of Inl e \<Rightarrow> Inl e | Inr state' \<Rightarrow> parse_tokens state' ts)"

definition json_decode :: "string \<Rightarrow> exn + pyval" where
  "json_decode s =
     (case tokenize s of
        None \<Rightarrow> Inl (JSONDecodeError ''Expecting value'')
      | Some ts \<Rightarrow> parse_tokens ([], Value) ts)"

section \<open>The libraries\<close>

text \<open>
  The libraries the server calls are parameters. \<open>read_csv\<close> gives the number of rows
  that \<^verbatim>\<open>pd.read_csv\<close> reads from the contents of a file, or the exception the reader
  raises; \<open>send_message\<close> is the answer of the language model to a request, or the
  exception of the client; \<open>json_loads\<close> is the decoder; \<open>encode_error\<close> is the exception
  with which the driver or the server of the document store refuses an update, if it
  does.
\<close>

record chat_request =
  api_key :: string
  session_id :: string
  row_count :: nat
  attachment :: string

record libs =
  read_csv :: "string \<Rightarrow> exn + nat"
  send_message :: "chat_request \<Rightarrow> exn + string"
  json_loads :: "string \<Rightarrow> exn + pyval"
  encode_error :: "pydict \<Rightarrow> exn option"

section \<open>The document store\<close>

text \<open>
  The collection \<^verbatim>\<open>db.churn_analyses\<close> is the list of its documents in insertion
  order. The server queries it by equality on \<^verbatim>\<open>analysis_id\<close> only, always with a
  string. The store is taken to be reachable: a lost connection is outside the model.
\<close>

type_synonym collection = "pydict list"

definition matches :: "pydict \<Rightarrow> pydict \<Rightarrow> bool" where
  "matches query doc = list_all (\<lambda>(k, v). map_of doc k = Some v) query"

definition find_one :: "collection \<Rightarrow> pydict \<Rightarrow> pydict option" where
  "find_one coll query = List.find (matches query) coll"

text \<open>The query \<^verbatim>\<open>{"analysis_id": analysis_id}\<close>.\<close>

definition by_analysis_id :: "string \<Rightarrow> pydict" where
  "by_analysis_id analysis_id = [(''analysis_id'', PStr analysis_id)]"

text \<open>
  \<^verbatim>\<open>insert_one\<close> gives a document without \<^verbatim>\<open>_id\<close> a fresh \<^verbatim>\<open>ObjectId\<close>, stored as its
  first field. The one document the server inserts holds texts, a date and \<^verbatim>\<open>None\<close>.
\<close>

definition insert_one :: "collection \<Rightarrow> nat \<Rightarrow> pydict \<Rightarrow> collection" where
  "insert_one coll oid doc =
     coll @ [if dict_in ''_id'' doc then doc else (''_id'', PObjectId oid) # doc]"

definition set_fields :: "pydict \<Rightarrow> pydict \<Rightarrow> pydict" where
  "set_fields doc upd = fold (\<lambda>(k, v) d. dict_set d k v) upd doc"

text \<open>The change that an accepted update makes: \<^verbatim>\<open>$set\<close> on the first document that matches.\<close>

fun set_one :: "collection \<Rightarrow> pydict \<Rightarrow> pydict \<Rightarrow> collection" where
  "set_one [] query upd = []"
| "set_one (d # ds) query upd =
     (if matches query d then set_fields d upd # ds else d # set_one ds query upd)"

text \<open>
  \<^verbatim>\<open>update_one(query, {"$set": upd})\<close> raises when the driver cannot encode the update or
  the server refuses it, and then changes nothing. An update whose values are texts,
  dates, \<^verbatim>\<open>None\<close>, booleans, floats and integers of 64 bits is taken; for every other
  update (a list, a nested document, a larger integer) the verdict is the parameter
  \<open>encode_error\<close>: the exception raised, if any.
\<close>

fun plain :: "pyval \<Rightarrow> bool" where
  "plain (PInt i) \<longleftrightarrow> - 9223372036854775808 \<le> i \<and> i < 9223372036854775808"
| "plain (PList xs) \<longleftrightarrow> False"
| "plain (PDict d) \<longleftrightarrow> False"
| "plain v \<longleftrightarrow> True"

definition store_refusal :: "libs \<Rightarrow> pydict \<Rightarrow> exn option" where
  "store_refusal L upd = (if list_all (\<lambda>(k, v). plain v) upd then None else encode_error L upd)"

definition update_one :: "libs \<Rightarrow> collection \<Rightarrow> pydict \<Rightarrow> pydict \<Rightarrow> exn + collection" where
  "update_one L coll query upd =
     (case store_refusal L upd of
        Some e \<Rightarrow> Inl e
      | None \<Rightarrow> Inr (set_one coll query upd))"

text \<open>
  The refusal the driver is known for, used to run the model on concrete answers: an
  integer that does not fit 64 bits.
\<close>

fun first_some :: "'a option list \<Rightarrow> 'a option" where
  "first_some [] = None"
| "first_some (None # xs) = first_some xs"
| "first_some (Some e # xs) = Some e"

fun bson_refusal :: "pyval \<Rightarrow> exn option" where
  "bson_refusal (PInt i) =
     (if - 9223372036854775808 \<le> i \<and> i < 9223372036854775808 then None
      else Some (OverflowError ''MongoDB can only handle up to 8-byte ints''))"
| "bson_refusal (PList xs) = first_some (map bson_refusal xs)"
| "bson_refusal (PDict d) = first_some (map (\<lambda>p. bson_refusal (snd p)) d)"
| "bson_refusal v = None"

definition bson_encode_error :: "pydict \<Rightarrow> exn option" where
  "bson_encode_error upd = bson_refusal (PDict upd)"

fun delete_one :: "collection \<Rightarrow> pydict \<Rightarrow> collection" where
  "delete_one [] query = []"
| "delete_one (d # ds) query = (if matches query d then ds else d # delete_one ds query)"

text \<open>
  \<^verbatim>\<open>find().sort("created_at", -1)\<close>: the only writer of \<^verbatim>\<open>created_at\<close> is the upload,
  which stores a \<^verbatim>\<open>datetime\<close>; a document without one sorts as the store sorts a
  missing field, below every date. Documents of the same date keep their order.
\<close>

definition created_at_key :: "pydict \<Rightarrow> nat option" where
  "created_at_key doc = (case map_of doc ''created_at'' of Some (PDatetime t) \<Rightarrow> Some t | _ \<Rightarrow> None)"

fun insert_desc :: "('a \<Rightarrow> 'k::linorder) \<Rightarrow> 'a \<Rightarrow> 'a list \<Rightarrow> 'a list" where
  "insert_desc f x [] = [x]"
| "insert_desc f x (y # ys) = (if f y \<le> f x then x # y # ys else y # insert_desc f x ys)"

definition sort_desc :: "('a \<Rightarrow> 'k::linorder) \<Rightarrow> 'a list \<Rightarrow> 'a list" where
  "sort_desc f xs = foldr (insert_desc f) xs []"

section \<open>The file system and the process environment\<close>

text \<open>
  A file system holds the contents of its files. Whether the operating system lets a
  path be opened for writing or removed is part of the state: \<open>unwritable\<close> are the
  paths at which \<^verbatim>\<open>open(path, "wb")\<close> raises, \<open>undeletable\<close> those at which
  \<^verbatim>\<open>os.remove\<close> raises although the file is there. Every such failure is given the
  text of a refused permission; the server only passes the text on.
\<close>

record filesystem =
  files :: "string \<rightharpoonup> string"
  unwritable :: "string set"
  undeletable :: "string set"

text \<open>
  \<^verbatim>\<open>repr\<close> of a text: in single quotes, or in double quotes when the text holds a
  single quote and no double quote; the quote, the backslash and the characters that
  are not printable are escaped.
\<close>

definition printable :: "char \<Rightarrow> bool" where
  "printable c \<longleftrightarrow>
     (32 \<le> (of_char c :: nat) \<and> (of_char c :: nat) < 127) \<or>
     (161 \<le> (of_char c :: nat) \<and> (of_char c :: nat) \<noteq> 173)"

definition hex_escape :: "char \<Rightarrow> string" where
  "hex_escape c =
     [CHR 0x5C, CHR ''x'', ''0123456789abcdef'' ! (of_char c div 16),
      ''0123456789abcdef'' ! (of_char c mod 16)]"

definition repr_char :: "char \<Rightarrow> char \<Rightarrow> string" where
  "repr_char q c =
     (if c = q \<or> c = CHR 0x5C then [CHR 0x5C, c]
      else if c = CHR 0x09 then [CHR 0x5C, CHR ''t'']
      else if c = CHR 0x0A then [CHR 0x5C, CHR ''n'']
      else if c = CHR 0x0D then [CHR 0x5C, CHR ''r'']
      else if printable c then [c]
      else hex_escape c)"

definition py_repr :: "string \<Rightarrow> string" where
  "py_repr s =
     (let q = (if CHR 0x27 \<in> set s \<and> CHR 0x22 \<notin> set s then CHR 0x22 else CHR 0x27)
      in q # concat (map (repr_char q) s) @ [q])"

definition os_path_exists :: "filesystem \<Rightarrow> string \<Rightarrow> bool" where
  "os_path_exists fsys path \<longleftrightarrow> files fsys path \<noteq> None"

definition os_remove :: "filesystem \<Rightarrow> string \<Rightarrow> exn + filesystem" where
  "os_remove fsys path =
     (case files fsys path of
        None \<Rightarrow> Inl (FileNotFoundError (''[Errno 2] No such file or directory: '' @ py_repr path))
      | Some c \<Rightarrow>
          if path \<in> undeletable fsys
          then Inl (PermissionError (''[Errno 13] Permission denied: '' @ py_repr path))
          else Inr (fsys\<lparr>files := (files fsys)(path := None)\<rparr>))"

definition write_file :: "filesystem \<Rightarrow> string \<Rightarrow> string \<Rightarrow> exn + filesystem" where
  "write_file fsys path bytes =
     (if path \<in> unwritable fsys
      then Inl (PermissionError (''[Errno 13] Permission denied: '' @ py_repr path))
      else Inr (fsys\<lparr>files := (files fsys)(path \<mapsto> bytes)\<rparr>))"

text \<open>
  \<^verbatim>\<open>str(UPLOAD_DIR / name)\<close>: the path library drops the empty and the single-dot
  components of \<open>name\<close>. The name starts with the analysis id, never with a slash.
\<close>

fun split_on :: "char \<Rightarrow> string \<Rightarrow> string list" where
  "split_on sep [] = [[]]"
| "split_on sep (c # cs) =
     (if c = sep then [] # split_on sep cs
      else (case split_on sep cs of [] \<Rightarrow> [[c]] | p # ps \<Rightarrow> (c # p) # ps))"

definition path_parts :: "string \<Rightarrow> string list" where
  "path_parts s = filter (\<lambda>p. p \<noteq> [] \<and> p \<noteq> ''.'') (split_on (CHR ''/'') s)"

definition path_div :: "string \<Rightarrow> string \<Rightarrow> string" where
  "path_div base name = concat (map (\<lambda>p. ''/'' @ p) (path_parts base @ path_parts name))"

definition UPLOAD_DIR :: string where
  "UPLOAD_DIR = ''/app/uploads''"

record world =
  fs :: filesystem
  churn_analyses :: collection
  environ :: "string \<rightharpoonup> string"

section \<open>The endpoints\<close>

datatype http_exception = HTTPException nat string

record upload_file =
  filename :: string
  body :: string

text \<open>The arguments of the background task that an upload schedules.\<close>

record task =
  task_analysis_id :: string
  task_file_path :: string
  task_filename :: string

text \<open>
  \<^verbatim>\<open>upload_csv\<close>. The values the call draws from its surroundings are arguments:
  \<open>uuid\<close> is \<^verbatim>\<open>str(uuid.uuid4())\<close>, \<open>oid\<close> the \<^verbatim>\<open>ObjectId\<close> of the new document and
  \<open>now\<close> is \<^verbatim>\<open>datetime.now()\<close>. The result is the response or the HTTP error, the
  world after the call and the task handed to \<^verbatim>\<open>asyncio.create_task\<close>, if any.
\<close>

definition upload_csv ::
  "world \<Rightarrow> string \<Rightarrow> nat \<Rightarrow> nat \<Rightarrow> upload_file \<Rightarrow> (http_exception + pydict) \<times> world \<times> task option" where
  "upload_csv w uuid oid now file =
     (if \<not> endswith (filename file) ''.csv''
      then (Inl (HTTPException 400 ''Only CSV files are allowed''), w, None)
      else
        let analysis_id = uuid;
            file_path = path_div UPLOAD_DIR (analysis_id @ ''_'' @ filename file)
        in case write_file (fs w) file_path (body file) of
             Inl e \<Rightarrow> (Inl (HTTPException 500 (''File upload failed: '' @ str_exn e)), w, None)
           | Inr fs' \<Rightarrow>
               let analysis_record =
                     [(''analysis_id'', PStr analysis_id),
                      (''filename'', PStr (filename file)),
                      (''file_path'', PStr file_path),
                      (''status'', PStr ''processing''),
                      (''created_at'', PDatetime now),
                      (''total_customers'', PNone),
                      (''high_risk_customers'', PNone),
                      (''predictions'', PNone),
                      (''insights'', PNone),
                      (''recommendations'', PNone)]
               in (Inr [(''analysis_id'', PStr analysis_id),
                        (''message'', PStr ''File uploaded successfully. Analysis started.''),
                        (''status'', PStr ''processing'')],
                   w\<lparr>fs := fs',
                     churn_analyses := insert_one (churn_analyses w) oid analysis_record\<rparr>,
                   Some \<lparr>task_analysis_id = analysis_id, task_file_path = file_path,
                         task_filename = filename file\<rparr>))"

text \<open>\<^verbatim>\<open>get_analysis_status\<close>: \<^verbatim>\<open>not analysis\<close> holds of \<^verbatim>\<open>None\<close> and of an empty document.\<close>

definition strip_id :: "pydict \<Rightarrow> pydict" where
  "strip_id analysis = (if dict_in ''_id'' analysis then dict_del analysis ''_id'' else analysis)"

definition get_analysis_status :: "world \<Rightarrow> string \<Rightarrow> http_exception + pydict" where
  "get_analysis_status w analysis_id =
     (case find_one (churn_analyses w) (by_analysis_id analysis_id) of
        None \<Rightarrow> Inl (HTTPException 404 ''Analysis not found'')
      | Some analysis \<Rightarrow>
          if analysis = [] then Inl (HTTPException 404 ''Analysis not found'')
          else Inr (strip_id analysis))"

text \<open>\<^verbatim>\<open>get_all_analyses\<close>: the 20 newest documents, each without its \<^verbatim>\<open>_id\<close>.\<close>

definition recent_analyses :: "world \<Rightarrow> pydict list" where
  "recent_analyses w = map strip_id (take 20 (sort_desc created_at_key (churn_analyses w)))"

definition get_all_analyses :: "world \<Rightarrow> pydict" where
  "get_all_analyses w = [(''analyses'', PList (map PDict (recent_analyses w)))]"

text \<open>
  \<^verbatim>\<open>delete_analysis\<close>. The removal of the file and the removal of the document stand
  in one \<^verbatim>\<open>try\<close> block whose handler answers 500. A stored \<^verbatim>\<open>file_path\<close> is a string;
  on a value that is no path \<^verbatim>\<open>os.path.exists\<close> raises \<^verbatim>\<open>TypeError\<close> (an integer would
  be read as a file descriptor: the upload stores none).
\<close>

definition remove_upload :: "filesystem \<Rightarrow> pydict \<Rightarrow> exn + filesystem" where
  "remove_upload fsys analysis =
     (case map_of analysis ''file_path'' of
        None \<Rightarrow> Inr fsys
      | Some (PStr path) \<Rightarrow> if os_path_exists fsys path then os_remove fsys path else Inr fsys
      | Some v \<Rightarrow>
          Inl (TypeError (''stat: path should be string, bytes, os.PathLike or integer, not ''
                          @ type_name v)))"

definition delete_analysis :: "world \<Rightarrow> string \<Rightarrow> (http_exception + pydict) \<times> world" where
  "delete_analysis w analysis_id =
     (case find_one (churn_analyses w) (by_analysis_id analysis_id) of
        None \<Rightarrow> (Inl (HTTPException 404 ''Analysis not found''), w)
      | Some analysis \<Rightarrow>
          if analysis = [] then (Inl (HTTPException 404 ''Analysis not found''), w)
          else
            (case remove_upload (fs w) analysis of
               Inl e \<Rightarrow> (Inl (HTTPException 500 (''Failed to delete analysis: '' @ str_exn e)), w)
             | Inr fs' \<Rightarrow>
                 (Inr [(''message'', PStr ''Analysis deleted successfully'')],
                  w\<lparr>fs := fs',
                    churn_analyses :=
                      delete_one (churn_analyses w) (by_analysis_id analysis_id)\<rparr>)))"

section \<open>The background task\<close>

text \<open>
  \<^verbatim>\<open>len(pd.read_csv(file_path))\<close>. \<^verbatim>\<open>len\<close> gives an index-sized integer, below
  \<^verbatim>\<open>2**63\<close>, and raises on a larger length.
\<close>

definition pd_read_csv :: "libs \<Rightarrow> filesystem \<Rightarrow> string \<Rightarrow> exn + nat" where
  "pd_read_csv L fsys path =
     (case files fsys path of
        None \<Rightarrow> Inl (FileNotFoundError (''[Errno 2] No such file or directory: '' @ py_repr path))
      | Some c \<Rightarrow>
          (case read_csv L c of
             Inl e \<Rightarrow> Inl e
           | Inr n \<Rightarrow>
               if n < 9223372036854775808 then Inr n
               else Inl (OverflowError
                          (''cannot fit '' @ py_repr ''int'' @ '' into an index-sized integer''))))"

text \<open>The text handed to the decoder: the response without its code fence.\<close>

definition strip_fences :: "string \<Rightarrow> string" where
  "strip_fences response =
     (let response_text = strip response
      in if startswith response_text ''```json''
         then strip (replace (replace response_text ''```json'' []) ''```'' [])
         else if startswith response_text ''```''
         then strip (replace response_text ''```'' [])
         else response_text)"

definition completed_fields :: "nat \<Rightarrow> nat \<Rightarrow> pydict \<Rightarrow> pydict" where
  "completed_fields now total_customers analysis_result =
     [(''status'', PStr ''completed''),
      (''completed_at'', PDatetime now),
      (''total_customers'',
         dict_get analysis_result ''total_customers'' (PInt (int total_customers))),
      (''high_risk_customers'', dict_get analysis_result ''high_risk_customers'' (PInt 0)),
      (''predictions'', dict_get analysis_result ''predictions'' (PList [])),
      (''insights'', dict_get analysis_result ''insights'' (PStr [])),
      (''recommendations'', dict_get analysis_result ''recommendations'' (PStr []))]"

definition parse_error_fields :: "nat \<Rightarrow> nat \<Rightarrow> string \<Rightarrow> string \<Rightarrow> pydict" where
  "parse_error_fields now total_customers message response =
     [(''status'', PStr ''completed_with_errors''),
      (''error'', PStr (''JSON parsing error: '' @ message)),
      (''raw_response'', PStr response),
      (''total_customers'', PInt (int total_customers)),
      (''completed_at'', PDatetime now)]"

definition failed_fields :: "nat \<Rightarrow> exn \<Rightarrow> pydict" where
  "failed_fields now e =
     [(''status'', PStr ''failed''),
      (''error'', PStr (str_exn e)),
      (''completed_at'', PDatetime now)]"

text \<open>
  The inner \<^verbatim>\<open>try\<close> block. Its handler takes a \<^verbatim>\<open>JSONDecodeError\<close> only; a decoded
  value that is no \<^verbatim>\<open>dict\<close> has no \<^verbatim>\<open>get\<close>, and the \<^verbatim>\<open>AttributeError\<close> leaves
  the block, as does the exception of an update that the store refuses.
\<close>

definition parse_ai_response ::
  "libs \<Rightarrow> nat \<Rightarrow> collection \<Rightarrow> string \<Rightarrow> nat \<Rightarrow> string \<Rightarrow> exn + collection" where
  "parse_ai_response L now coll analysis_id total_customers response =
     (case json_loads L (strip_fences response) of
        Inl (JSONDecodeError m) \<Rightarrow>
          update_one L coll (by_analysis_id analysis_id)
            (parse_error_fields now total_customers m response)
      | Inl e \<Rightarrow> Inl e
      | Inr (PDict analysis_result) \<Rightarrow>
          update_one L coll (by_analysis_id analysis_id)
            (completed_fields now total_customers analysis_result)
      | Inr v \<Rightarrow>
          Inl (AttributeError
                 (py_repr (type_name v) @ '' object has no attribute '' @ py_repr ''get'')))"

text \<open>The outer \<^verbatim>\<open>try\<close> block, up to the exception that leaves it.\<close>

definition analysis_body ::
  "libs \<Rightarrow> nat \<Rightarrow> world \<Rightarrow> string \<Rightarrow> string \<Rightarrow> exn + collection" where
  "analysis_body L now w analysis_id file_path =
     (case pd_read_csv L (fs w) file_path of
        Inl e \<Rightarrow> Inl e
      | Inr total_customers \<Rightarrow>
          (case environ w ''GEMINI_API_KEY'' of
             None \<Rightarrow> Inl (Exception ''GEMINI_API_KEY not found in environment variables'')
           | Some gemini_api_key \<Rightarrow>
               if gemini_api_key = []
               then Inl (Exception ''GEMINI_API_KEY not found in environment variables'')
               else
                 (case send_message L
                         \<lparr>api_key = gemini_api_key,
                          session_id = ''churn_analysis_'' @ analysis_id,
                          row_count = total_customers,
                          attachment = file_path\<rparr> of
                    Inl e \<Rightarrow> Inl e
                  | Inr response \<Rightarrow>
                      parse_ai_response L now (churn_analyses w) analysis_id
                        total_customers response)))"

text \<open>
  \<^verbatim>\<open>analyze_churn_data\<close>: the handler of the outer block writes the failure into the
  record. \<open>now\<close> is \<^verbatim>\<open>datetime.now()\<close> at the one update the run makes. An exception of
  the handler's own update would leave the task with the store as it was; that update
  holds two texts and a date and is never refused.
\<close>

definition analyze_churn_data ::
  "libs \<Rightarrow> nat \<Rightarrow> world \<Rightarrow> string \<Rightarrow> string \<Rightarrow> string \<Rightarrow> world" where
  "analyze_churn_data L now w analysis_id file_path fname =
     (case analysis_body L now w analysis_id file_path of
        Inr coll \<Rightarrow> w\<lparr>churn_analyses := coll\<rparr>
      | Inl e \<Rightarrow>
          (case update_one L (churn_analyses w) (by_analysis_id analysis_id)
                  (failed_fields now e) of
             Inr coll \<Rightarrow> w\<lparr>churn_analyses := coll\<rparr>
           | Inl e' \<Rightarrow> w))"

section \<open>The states a server reaches\<close>

text \<open>
  A server starts on an empty collection. Its endpoints and its background tasks change
  the store; the file system and the environment also change from outside.
\<close>

inductive reachable :: "world \<Rightarrow> bool" where
  start: "churn_analyses w = [] \<Longrightarrow> reachable w"
| upload: "reachable w \<Longrightarrow> reachable (fst (snd (upload_csv w uuid oid now file)))"
| analyze: "reachable w \<Longrightarrow> reachable (analyze_churn_data L now w aid path fname)"
| delete: "reachable w \<Longrightarrow> reachable (snd (delete_analysis w aid))"
| outside: "reachable w \<Longrightarrow> reachable (w\<lparr>fs := f, environ := e\<rparr>)"

text \<open>The three updates a run of the background task can make.\<close>

definition terminal_update :: "nat \<Rightarrow> pydict \<Rightarrow> bool" where
  "terminal_update now upd \<longleftrightarrow>
     (\<exists>e. upd = failed_fields now e) \<or>
     (\<exists>n m r. upd = parse_error_fields now n m r) \<or>
     (\<exists>n res. upd = completed_fields now n res)"

definition terminal_status :: "pyval option \<Rightarrow> bool" where
  "terminal_status s \<longleftrightarrow>
     s = Some (PStr ''completed'') \<or> s = Some (PStr ''completed_with_errors'') \<or>
     s = Some (PStr ''failed'')"

text \<open>
  What holds of every stored record: it has the id, the file name, the path and the
  date of its upload, and it is in the state \<^verbatim>\<open>processing\<close> or in a terminal state with
  its date of completion.
\<close>

definition well_formed :: "pydict \<Rightarrow> bool" where
  "well_formed d \<longleftrightarrow>
     (\<exists>a n. map_of d ''analysis_id'' = Some (PStr a) \<and>
            map_of d ''filename'' = Some (PStr n) \<and>
            map_of d ''file_path'' = Some (PStr (path_div UPLOAD_DIR (a @ ''_'' @ n)))) \<and>
     (\<exists>t. map_of d ''created_at'' = Some (PDatetime t)) \<and>
     (map_of d ''status'' = Some (PStr ''processing'') \<or>
      terminal_status (map_of d ''status'') \<and> (\<exists>t. map_of d ''completed_at'' = Some (PDatetime t)))"

section \<open>Example states\<close>

text \<open>
  The states the closed theorems below run on: a fresh server, the five-row file of the
  test suite, and the server after that file was uploaded under the id \<open>a1\<close>.
\<close>

definition empty_fs :: filesystem where
  "empty_fs = \<lparr>files = Map.empty, unwritable = {}, undeletable = {}\<rparr>"

definition fresh_world :: world where
  "fresh_world = \<lparr>fs = empty_fs, churn_analyses = [], environ = Map.empty\<rparr>"

definition test_csv :: upload_file where
  "test_csv =
     \<lparr>filename = ''test_customers.csv'',
      body = ''customer_id,customer_name,age\<newline>CUST001,John Smith,35\<newline>CUST002,Jane Doe,28\<newline>CUST003,Bob Johnson,45\<newline>CUST004,Alice Brown,31\<newline>CUST005,Charlie Wilson,52''\<rparr>"

definition test_txt :: upload_file where
  "test_txt = \<lparr>filename = ''test.txt'', body = ''This is not a CSV file''\<rparr>"

definition stored_record :: pydict where
  "stored_record =
     [(''_id'', PObjectId 7),
      (''analysis_id'', PStr ''a1''),
      (''filename'', PStr ''test_customers.csv''),
      (''file_path'', PStr ''/app/uploads/a1_test_customers.csv''),
      (''status'', PStr ''processing''),
      (''created_at'', PDatetime 100),
      (''total_customers'', PNone),
      (''high_risk_customers'', PNone),
      (''predictions'', PNone),
      (''insights'', PNone),
      (''recommendations'', PNone)]"

definition uploaded_world :: world where
  "uploaded_world =
     \<lparr>fs = \<lparr>files = [''/app/uploads/a1_test_customers.csv'' \<mapsto> body test_csv],
             unwritable = {}, undeletable = {}\<rparr>,
      churn_analyses = [stored_record],
      environ = Map.empty\<rparr>"

text \<open>The same server when the operating system refuses to remove the uploaded file.\<close>

definition locked_world :: world where
  "locked_world =
     uploaded_world\<lparr>fs := (fs uploaded_world)\<lparr>undeletable := {''/app/uploads/a1_test_customers.csv''}\<rparr>\<rparr>"

text \<open>The same server after the uploaded file was lost from the disk.\<close>

definition lost_file_world :: world where
  "lost_file_world = uploaded_world\<lparr>fs := empty_fs\<rparr>"

text \<open>The same server with a credential for the language model.\<close>

definition configured_world :: world where
  "configured_world = uploaded_world\<lparr>environ := [''GEMINI_API_KEY'' \<mapsto> ''test-key'']\<rparr>"

text \<open>Two answers of the language model, and libraries that give the answer \<open>reply\<close>.\<close>

definition plain_reply :: string where
  "plain_reply = ''I could not read the attached file.''"

definition fenced_reply :: string where
  "fenced_reply =
     ''```json\<newline>{\"total_customers\": 5, \"high_risk_customers\": 2, \"insights\": \"Support calls drive churn\"}\<newline>```''"

definition example_libs :: "string \<Rightarrow> libs" where
  "example_libs reply =
     \<lparr>read_csv = (\<lambda>c. Inr 5), send_message = (\<lambda>request. Inr reply), json_loads = json_decode,
      encode_error = bson_encode_error\<rparr>"


text \<open>
  The server after the background task of \<open>a1\<close> ran without a credential, and the
  record it leaves.
\<close>

definition failed_world :: world where
  "failed_world =
     analyze_churn_data (example_libs plain_reply) 200 uploaded_world ''a1''
       ''/app/uploads/a1_test_customers.csv'' ''test_customers.csv''"

definition failed_record :: pydict where
  "failed_record =
     [(''_id'', PObjectId 7),
      (''analysis_id'', PStr ''a1''),
      (''filename'', PStr ''test_customers.csv''),
      (''file_path'', PStr ''/app/uploads/a1_test_customers.csv''),
      (''status'', PStr ''failed''),
      (''created_at'', PDatetime 100),
      (''total_customers'', PNone),
      (''high_risk_customers'', PNone),
      (''predictions'', PNone),
      (''insights'', PNone),
      (''recommendations'', PNone),
      (''error'', PStr ''GEMINI_API_KEY not found in environment variables''),
      (''completed_at'', PDatetime 200)]"

text \<open>The record of \<open>a1\<close> as the endpoints return it after the upload.\<close>

definition public_record :: pydict where
  "public_record =
     [(''analysis_id'', PStr ''a1''),
      (''filename'', PStr ''test_customers.csv''),
      (''file_path'', PStr ''/app/uploads/a1_test_customers.csv''),
      (''status'', PStr ''processing''),
      (''created_at'', PDatetime 100),
      (''total_customers'', PNone),
      (''high_risk_customers'', PNone),
      (''predictions'', PNone),
      (''insights'', PNone),
      (''recommendations'', PNone)]"

text \<open>
  A text in a code fence: the opening marker with a language tag (or none), the text
  on lines of its own, the closing marker.
\<close>

definition fenced :: "string \<Rightarrow> string \<Rightarrow> string" where
  "fenced tag t = ''```'' @ tag @ ''\<newline>'' @ t @ ''\<newline>```''"

text \<open>The JSON text of the fenced answer, and a JSON text that holds the marker itself.\<close>

definition reply_json :: string where
  "reply_json =
     ''{\"total_customers\": 5, \"high_risk_customers\": 2, \"insights\": \"Support calls drive churn\"}''"

definition backticks_json :: string where
  "backticks_json = ''{\"insights\": \"Wrap code in ``` marks\"}''"

text \<open>
  An answer whose count does not fit 64 bits, and the record of \<open>a1\<close> after the task ran
  on it.
\<close>

definition overflow_reply :: string where
  "overflow_reply = ''{\"total_customers\": 9223372036854775808}''"

definition overflow_record :: pydict where
  "overflow_record =
     [(''_id'', PObjectId 7),
      (''analysis_id'', PStr ''a1''),
      (''filename'', PStr ''test_customers.csv''),
      (''file_path'', PStr ''/app/uploads/a1_test_customers.csv''),
      (''status'', PStr ''failed''),
      (''created_at'', PDatetime 100),
      (''total_customers'', PNone),
      (''high_risk_customers'', PNone),
      (''predictions'', PNone),
      (''insights'', PNone),
      (''recommendations'', PNone),
      (''error'', PStr ''MongoDB can only handle up to 8-byte ints''),
      (''completed_at'', PDatetime 200)]"

section \<open>Queries by analysis id\<close>

lemma matches_by_analysis_id:
  "matches (by_analysis_id aid) d \<longleftrightarrow> map_of d ''analysis_id'' = Some (PStr aid)"
  by (simp add: matches_def by_analysis_id_def)

lemma find_one_by_analysis_id:
  "find_one coll (by_analysis_id aid) =
     List.find (\<lambda>d. map_of d ''analysis_id'' = Some (PStr aid)) coll"
proof -
  have "matches (by_analysis_id aid) = (\<lambda>d. map_of d ''analysis_id'' = Some (PStr aid))"
    by (rule ext) (simp add: matches_by_analysis_id)
  then show ?thesis by (simp add: find_one_def)
qed

lemma filter_absent_key:
  "map_of d k = None \<Longrightarrow> filter (\<lambda>(k', v). k' \<noteq> k) d = d"
  by (induction d) (auto split: if_splits)

lemma dict_del_filter: "dict_del d k = filter (\<lambda>(k', v). k' \<noteq> k) d"
  by (induction d) (auto simp: dict_del_def)

lemma strip_id_filter: "strip_id d = filter (\<lambda>(k, v). k \<noteq> ''_id'') d"
  by (simp add: strip_id_def dict_in_def dict_del_filter filter_absent_key)

lemma upload_test_csv:
  "upload_csv fresh_world ''a1'' 7 100 test_csv =
     (Inr [(''analysis_id'', PStr ''a1''),
           (''message'', PStr ''File uploaded successfully. Analysis started.''),
           (''status'', PStr ''processing'')],
      uploaded_world,
      Some \<lparr>task_analysis_id = ''a1'', task_file_path = ''/app/uploads/a1_test_customers.csv'',
            task_filename = ''test_customers.csv''\<rparr>)"
  by (simp add: upload_csv_def fresh_world_def empty_fs_def test_csv_def uploaded_world_def
        stored_record_def endswith_def write_file_def path_div_def path_parts_def UPLOAD_DIR_def
        insert_one_def dict_in_def Let_def)

section \<open>Updates of a record\<close>

lemma map_of_set_fields: "map_of (set_fields d upd) = map_of d ++ map_of (rev upd)"
proof (induction upd arbitrary: d)
  case Nil
  then show ?case by (simp add: set_fields_def)
next
  case (Cons f upd)
  obtain k v where f: "f = (k, v)" by (cases f)
  have "set_fields d (f # upd) = set_fields (dict_set d k v) upd"
    by (simp add: set_fields_def f)
  then have "map_of (set_fields d (f # upd)) = map_of (dict_set d k v) ++ map_of (rev upd)"
    by (simp add: Cons.IH)
  also have "\<dots> = map_of d ++ map_of (rev (f # upd))"
    by (simp add: dict_set_def update_conv f map_add_def fun_eq_iff split: option.splits)
  finally show ?case .
qed

lemma find_one_set_one:
  assumes "\<And>d. matches q d \<Longrightarrow> matches q (set_fields d upd)"
  shows "find_one (set_one coll q upd) q = map_option (\<lambda>d. set_fields d upd) (find_one coll q)"
  using assms by (induction coll) (auto simp: find_one_def)

lemma keeps_analysis_id:
  assumes "map_of upd ''analysis_id'' = None"
  shows "matches (by_analysis_id aid) d \<Longrightarrow> matches (by_analysis_id aid) (set_fields d upd)"
proof -
  from assms have "map_of (rev upd) ''analysis_id'' = None"
    by (simp add: map_of_eq_None_iff)
  then show "matches (by_analysis_id aid) d \<Longrightarrow> matches (by_analysis_id aid) (set_fields d upd)"
    by (simp add: matches_by_analysis_id map_of_set_fields map_add_def)
qed

lemma find_one_after_update:
  assumes "map_of upd ''analysis_id'' = None"
  shows "find_one (set_one coll (by_analysis_id aid) upd) (by_analysis_id aid) =
         map_option (\<lambda>d. set_fields d upd) (find_one coll (by_analysis_id aid))"
  by (rule find_one_set_one) (rule keeps_analysis_id [OF assms])

lemma update_one_accepted:
  "store_refusal L upd = None \<Longrightarrow> update_one L coll q upd = Inr (set_one coll q upd)"
  by (simp add: update_one_def)

lemma update_one_refused:
  "store_refusal L upd = Some e \<Longrightarrow> update_one L coll q upd = Inl e"
  by (simp add: update_one_def)

lemma failed_fields_accepted: "store_refusal L (failed_fields now e) = None"
  by (simp add: store_refusal_def failed_fields_def)

lemma parse_error_fields_accepted:
  "rows < 9223372036854775808 \<Longrightarrow> store_refusal L (parse_error_fields now rows m response) = None"
  by (simp add: store_refusal_def parse_error_fields_def)

lemma pd_read_csv_bound:
  "pd_read_csv L fsys path = Inr rows \<Longrightarrow> rows < 9223372036854775808"
  by (auto simp: pd_read_csv_def split: option.splits sum.splits if_splits)

lemma analyze_parse_failure:
  assumes "pd_read_csv L (fs w) path = Inr rows"
    and "environ w ''GEMINI_API_KEY'' = Some key" and "key \<noteq> []"
    and "send_message L \<lparr>api_key = key, session_id = ''churn_analysis_'' @ aid,
                         row_count = rows, attachment = path\<rparr> = Inr response"
    and "json_loads L (strip_fences response) = Inl (JSONDecodeError m)"
  shows "analyze_churn_data L now w aid path fname =
         w\<lparr>churn_analyses := set_one (churn_analyses w) (by_analysis_id aid)
                                (parse_error_fields now rows m response)\<rparr>"
  using assms parse_error_fields_accepted [OF pd_read_csv_bound [OF assms(1)]]
  by (simp add: analyze_churn_data_def analysis_body_def parse_ai_response_def
        update_one_accepted)

lemma analyze_parse_success:
  assumes "pd_read_csv L (fs w) path = Inr rows"
    and "environ w ''GEMINI_API_KEY'' = Some key" and "key \<noteq> []"
    and "send_message L \<lparr>api_key = key, session_id = ''churn_analysis_'' @ aid,
                         row_count = rows, attachment = path\<rparr> = Inr response"
    and "json_loads L (strip_fences response) = Inr (PDict result)"
    and "store_refusal L (completed_fields now rows result) = None"
  shows "analyze_churn_data L now w aid path fname =
         w\<lparr>churn_analyses := set_one (churn_analyses w) (by_analysis_id aid)
                                (completed_fields now rows result)\<rparr>"
  using assms
  by (simp add: analyze_churn_data_def analysis_body_def parse_ai_response_def
        update_one_accepted)

lemma analyze_store_refused:
  assumes "pd_read_csv L (fs w) path = Inr rows"
    and "environ w ''GEMINI_API_KEY'' = Some key" and "key \<noteq> []"
    and "send_message L \<lparr>api_key = key, session_id = ''churn_analysis_'' @ aid,
                         row_count = rows, attachment = path\<rparr> = Inr response"
    and "json_loads L (strip_fences response) = Inr (PDict result)"
    and "store_refusal L (completed_fields now rows result) = Some e"
  shows "analyze_churn_data L now w aid path fname =
         w\<lparr>churn_analyses := set_one (churn_analyses w) (by_analysis_id aid)
                                (failed_fields now e)\<rparr>"
  using assms
  by (simp add: analyze_churn_data_def analysis_body_def parse_ai_response_def
        update_one_refused update_one_accepted failed_fields_accepted)

lemma analyze_one_update:
  "\<exists>upd. terminal_update now upd \<and>
     analyze_churn_data L now w aid path fname =
       w\<lparr>churn_analyses := set_one (churn_analyses w) (by_analysis_id aid) upd\<rparr>"
proof (cases "analysis_body L now w aid path")
  case (Inl e)
  then show ?thesis
    by (intro exI [of _ "failed_fields now e"])
       (auto simp: analyze_churn_data_def terminal_update_def update_one_accepted
          failed_fields_accepted)
next
  case (Inr coll)
  then have "\<exists>upd. terminal_update now upd \<and>
      coll = set_one (churn_analyses w) (by_analysis_id aid) upd"
    unfolding analysis_body_def parse_ai_response_def terminal_update_def update_one_def
    by (auto split: sum.splits option.splits if_splits exn.splits pyval.splits) blast+
  with Inr show ?thesis
    by (auto simp: analyze_churn_data_def)
qed

lemma terminal_update_keys:
  assumes "terminal_update now upd"
  shows "map_of upd ''completed_at'' = Some (PDatetime now)"
    and "map_of upd ''status'' \<in> {Some (PStr ''completed''), Some (PStr ''completed_with_errors''),
                                 Some (PStr ''failed'')}"
    and "map_of upd ''analysis_id'' = None"
    and "map_of upd ''file_path'' = None"
    and "map_of upd ''filename'' = None"
    and "map_of upd ''created_at'' = None"
  using assms
  by (auto simp: terminal_update_def failed_fields_def parse_error_fields_def completed_fields_def)

lemma terminal_update_status:
  "terminal_update now upd \<Longrightarrow> terminal_status (map_of upd ''status'')"
  by (auto simp: terminal_update_def terminal_status_def failed_fields_def
        parse_error_fields_def completed_fields_def)

lemma map_of_rev_distinct:
  "distinct (map fst xs) \<Longrightarrow> map_of (rev xs) = map_of xs"
  by (simp add: map_of_inject_set distinct_map)

lemma terminal_update_distinct: "terminal_update now upd \<Longrightarrow> distinct (map fst upd)"
  by (auto simp: terminal_update_def failed_fields_def parse_error_fields_def
        completed_fields_def)

lemma map_of_terminal_update:
  assumes "terminal_update now upd"
  shows "map_of (set_fields d upd) k = (case map_of upd k of Some v \<Rightarrow> Some v | None \<Rightarrow> map_of d k)"
  using terminal_update_distinct [OF assms]
  by (simp add: map_of_set_fields map_of_rev_distinct map_add_def)

lemma well_formed_set_fields:
  assumes "terminal_update now upd" and "well_formed d"
  shows "well_formed (set_fields d upd)"
  using assms terminal_update_keys [OF assms(1)] terminal_update_status [OF assms(1)]
  by (auto simp: well_formed_def map_of_terminal_update [OF assms(1)])

lemma well_formed_set_one:
  assumes "terminal_update now upd" and "list_all well_formed coll"
  shows "list_all well_formed (set_one coll q upd)"
  using assms(2) by (induction coll) (auto simp: well_formed_set_fields [OF assms(1)])

lemma well_formed_delete_one:
  "list_all well_formed coll \<Longrightarrow> list_all well_formed (delete_one coll q)"
  by (induction coll) auto

lemma well_formed_upload:
  assumes "list_all well_formed (churn_analyses w)"
  shows "list_all well_formed (churn_analyses (fst (snd (upload_csv w uuid oid now file))))"
  using assms
  by (auto simp: upload_csv_def Let_def insert_one_def dict_in_def well_formed_def
           split: sum.splits)

lemma well_formed_delete:
  assumes "list_all well_formed (churn_analyses w)"
  shows "list_all well_formed (churn_analyses (snd (delete_analysis w aid)))"
  using assms
  by (auto simp: delete_analysis_def well_formed_delete_one split: option.splits sum.splits)

lemma well_formed_analyze:
  assumes "list_all well_formed (churn_analyses w)"
  shows "list_all well_formed (churn_analyses (analyze_churn_data L now w aid path fname))"
proof -
  obtain upd where "terminal_update now upd"
    and "analyze_churn_data L now w aid path fname =
           w\<lparr>churn_analyses := set_one (churn_analyses w) (by_analysis_id aid) upd\<rparr>"
    using analyze_one_update by blast
  with assms show ?thesis
    by (simp add: well_formed_set_one)
qed

lemma reachable_well_formed: "reachable w \<Longrightarrow> list_all well_formed (churn_analyses w)"
proof (induction rule: reachable.induct)
  case (start w)
  then show ?case by simp
next
  case (upload w uuid oid now upfile)
  then show ?case by (simp add: well_formed_upload)
next
  case (analyze w L now aid path fname)
  then show ?case by (simp add: well_formed_analyze)
next
  case (delete w aid)
  then show ?case by (simp add: well_formed_delete)
next
  case (outside w f e)
  then show ?case by simp
qed

lemma analyze_missing_key:
  assumes "environ w ''GEMINI_API_KEY'' = None"
  shows "analyze_churn_data L now w aid path fname =
     w\<lparr>churn_analyses :=
         set_one (churn_analyses w) (by_analysis_id aid)
           (failed_fields now
              (case pd_read_csv L (fs w) path of
                 Inl e \<Rightarrow> e
               | Inr n \<Rightarrow> Exception ''GEMINI_API_KEY not found in environment variables''))\<rparr>"
  using assms
  by (simp add: analyze_churn_data_def analysis_body_def update_one_accepted
        failed_fields_accepted split: sum.splits)

section \<open>Running the decoder\<close>

lemmas decoder_defs =
  json_decode_def next_token_def punctuation_def json_ws_def step_def take_value_def
  take_key_def close_frame_def put_value_def match_number_def number_sign_def int_part_def
  frac_part_def exp_part_def match_constant_def constants_def
  is_digit_def digit_val_def dict_set_def unescape_def hex_val_def

lemma strip_plain_reply: "strip_fences plain_reply = plain_reply"
  by (simp add: strip_fences_def plain_reply_def strip_def isspace_def)

lemma decode_plain_reply: "json_decode plain_reply = Inl (JSONDecodeError ''Expecting value'')"
  by (simp add: plain_reply_def decoder_defs)

lemma strip_fenced_reply:
  "strip_fences fenced_reply =
     ''{\"total_customers\": 5, \"high_risk_customers\": 2, \"insights\": \"Support calls drive churn\"}''"
  by (simp add: strip_fences_def fenced_reply_def strip_def isspace_def)

lemma decode_fenced_reply:
  "json_decode (strip_fences fenced_reply) =
     Inr (PDict [(''total_customers'', PInt 5), (''high_risk_customers'', PInt 2),
                 (''insights'', PStr ''Support calls drive churn'')])"
  by (simp add: strip_fenced_reply decoder_defs)

section \<open>Deleting an analysis\<close>

text \<open>
  Claim C1, as amended. The claim says that no failure of the file removal keeps the
  record from being deleted. The code removes the file and the record in one \<^verbatim>\<open>try\<close>
  block: for a record found under the id, with a stored path \<open>p\<close>, the call answers 500
  and leaves the file system and the store as they were when the file is there and the
  operating system refuses to remove it; in every other case (the file is missing, or
  its removal succeeds) the file is gone afterwards, the first record of that id is
  deleted and the call succeeds.
\<close>

theorem delete_analysis_file_removal_outcome:
  assumes "find_one (churn_analyses w) (by_analysis_id aid) = Some d"
    and "map_of d ''file_path'' = Some (PStr p)"
  shows "delete_analysis w aid =
     (if files (fs w) p \<noteq> None \<and> p \<in> undeletable (fs w)
      then (Inl (HTTPException 500
                  (''Failed to delete analysis: [Errno 13] Permission denied: '' @ py_repr p)), w)
      else (Inr [(''message'', PStr ''Analysis deleted successfully'')],
            w\<lparr>fs := (fs w)\<lparr>files := (files (fs w))(p := None)\<rparr>,
              churn_analyses := delete_one (churn_analyses w) (by_analysis_id aid)\<rparr>))"
proof -
  from assms(2) have "d \<noteq> []"
    by auto
  moreover have "files (fs w) p = None \<Longrightarrow> (fs w)\<lparr>files := (files (fs w))(p := None)\<rparr> = fs w"
    by (simp add: fun_upd_idem)
  ultimately show ?thesis
    using assms
    by (auto simp: delete_analysis_def remove_upload_def os_path_exists_def os_remove_def)
qed

text \<open>
  The amended claim at the server whose uploaded file was lost: the record is found,
  the file is missing, the call succeeds and the store is empty afterwards.
\<close>

theorem delete_analysis_file_removal_outcome_witness:
  "find_one (churn_analyses lost_file_world) (by_analysis_id ''a1'') = Some stored_record \<and>
   map_of stored_record ''file_path'' = Some (PStr ''/app/uploads/a1_test_customers.csv'') \<and>
   delete_analysis lost_file_world ''a1'' =
     (Inr [(''message'', PStr ''Analysis deleted successfully'')],
      lost_file_world\<lparr>churn_analyses := []\<rparr>)"
proof -
  have found: "find_one (churn_analyses lost_file_world) (by_analysis_id ''a1'') = Some stored_record"
    by (simp add: lost_file_world_def uploaded_world_def stored_record_def find_one_def
          matches_def by_analysis_id_def)
  have path: "map_of stored_record ''file_path'' = Some (PStr ''/app/uploads/a1_test_customers.csv'')"
    by (simp add: stored_record_def)
  have "delete_analysis lost_file_world ''a1'' =
     (Inr [(''message'', PStr ''Analysis deleted successfully'')],
      lost_file_world\<lparr>churn_analyses := []\<rparr>)"
    using delete_analysis_file_removal_outcome [OF found path]
    by (simp add: lost_file_world_def uploaded_world_def empty_fs_def matches_by_analysis_id
          stored_record_def)
  with found path show ?thesis
    by blast
qed

text \<open>
  Claim C1 as stated fails: with the uploaded file on the disk and its removal refused,
  the record of \<open>a1\<close> is found, the call answers 500 and the record stays in the store.
\<close>

theorem delete_analysis_locked_file_counterexample:
  "find_one (churn_analyses locked_world) (by_analysis_id ''a1'') = Some stored_record \<and>
   delete_analysis locked_world ''a1'' =
     (Inl (HTTPException 500
            (''Failed to delete analysis: [Errno 13] Permission denied: '' @
             py_repr ''/app/uploads/a1_test_customers.csv'')),
      locked_world)"
  by (simp add: delete_analysis_def remove_upload_def os_path_exists_def os_remove_def
        locked_world_def uploaded_world_def stored_record_def find_one_def matches_def
        by_analysis_id_def)

section \<open>Uploading\<close>

text \<open>
  Claim C5. An upload whose file name does not end in \<^verbatim>\<open>.csv\<close> is answered with 400;
  the world after the call is the world before it (no file is written, no record is
  inserted) and no background task is scheduled.
\<close>

theorem upload_csv_rejects_non_csv:
  "\<not> endswith (filename file) ''.csv'' \<Longrightarrow>
     upload_csv w uuid oid now file =
       (Inl (HTTPException 400 ''Only CSV files are allowed''), w, None)"
  by (simp add: upload_csv_def)

text \<open>The text file of the test suite, sent to a fresh server.\<close>

theorem upload_csv_rejects_non_csv_witness:
  "\<not> endswith (filename test_txt) ''.csv'' \<and>
   upload_csv fresh_world ''a1'' 7 100 test_txt =
     (Inl (HTTPException 400 ''Only CSV files are allowed''), fresh_world, None)"
proof -
  have no_csv: "\<not> endswith (filename test_txt) ''.csv''"
    by (simp add: test_txt_def endswith_def)
  from upload_csv_rejects_non_csv [OF no_csv] no_csv show ?thesis
    by blast
qed

section \<open>Reading an analysis\<close>

text \<open>
  Claim C7. \<^verbatim>\<open>get_analysis_status\<close> answers 404 exactly when the store holds no record
  of the id; otherwise it returns the first record of that id as it is stored, in the
  order of its fields, without the field \<^verbatim>\<open>_id\<close>.
\<close>

theorem get_analysis_status_found_or_404:
  "(get_analysis_status w aid = Inl (HTTPException 404 ''Analysis not found'')) =
     (\<not> (\<exists>d \<in> set (churn_analyses w). map_of d ''analysis_id'' = Some (PStr aid))) \<and>
   get_analysis_status w aid =
     (case List.find (\<lambda>d. map_of d ''analysis_id'' = Some (PStr aid)) (churn_analyses w) of
        None \<Rightarrow> Inl (HTTPException 404 ''Analysis not found'')
      | Some d \<Rightarrow> Inr (filter (\<lambda>(k, v). k \<noteq> ''_id'') d))"
proof (cases "List.find (\<lambda>d. map_of d ''analysis_id'' = Some (PStr aid)) (churn_analyses w)")
  case None
  then have "\<not> (\<exists>d \<in> set (churn_analyses w). map_of d ''analysis_id'' = Some (PStr aid))"
    by (simp add: find_None_iff)
  with None show ?thesis
    by (simp add: get_analysis_status_def find_one_by_analysis_id)
next
  case (Some d)
  then have hit: "map_of d ''analysis_id'' = Some (PStr aid)" and mem: "d \<in> set (churn_analyses w)"
    by (auto simp: find_Some_iff)
  from hit have "d \<noteq> []"
    by auto
  moreover from hit mem
  have "\<exists>d \<in> set (churn_analyses w). map_of d ''analysis_id'' = Some (PStr aid)"
    by blast
  ultimately show ?thesis
    using Some by (simp add: get_analysis_status_def find_one_by_analysis_id strip_id_filter)
qed

text \<open>
  A deleted analysis is not found any more, when its id was that of one record only
  (the ids are drawn by \<^verbatim>\<open>uuid4\<close>): here after the deletion on the server whose file
  was lost.
\<close>

lemma find_one_delete_one:
  "length (filter (matches q) coll) \<le> 1 \<Longrightarrow> find_one (delete_one coll q) q = None"
proof (induction coll)
  case Nil
  then show ?case by (simp add: find_one_def)
next
  case (Cons d ds)
  show ?case
  proof (cases "matches q d")
    case True
    with Cons.prems have "filter (matches q) ds = []"
      by simp
    then have "List.find (matches q) ds = None"
      by (simp add: find_None_iff filter_empty_conv)
    with True show ?thesis
      by (simp add: find_one_def)
  next
    case False
    with Cons show ?thesis
      by (simp add: find_one_def)
  qed
qed

lemma get_analysis_status_after_delete:
  assumes "delete_analysis w aid = (Inr r, w')"
    and "length (filter (matches (by_analysis_id aid)) (churn_analyses w)) \<le> 1"
  shows "get_analysis_status w' aid = Inl (HTTPException 404 ''Analysis not found'')"
proof -
  from assms(1) have "churn_analyses w' = delete_one (churn_analyses w) (by_analysis_id aid)"
    by (auto simp: delete_analysis_def split: option.splits if_splits sum.splits)
  with find_one_delete_one [OF assms(2)] show ?thesis
    by (simp add: get_analysis_status_def)
qed

lemma get_analysis_status_deleted_example:
  "get_analysis_status (snd (delete_analysis lost_file_world ''a1'')) ''a1'' =
     Inl (HTTPException 404 ''Analysis not found'')"
proof -
  have "delete_analysis lost_file_world ''a1'' =
      (Inr [(''message'', PStr ''Analysis deleted successfully'')],
       snd (delete_analysis lost_file_world ''a1''))"
    by (simp add: delete_analysis_def remove_upload_def os_path_exists_def lost_file_world_def
          uploaded_world_def empty_fs_def stored_record_def find_one_def matches_def
          by_analysis_id_def)
  then show ?thesis
    by (rule get_analysis_status_after_delete)
       (simp add: lost_file_world_def uploaded_world_def stored_record_def matches_def
          by_analysis_id_def)
qed

section \<open>The outcomes of the background task\<close>

lemma configured_world_facts:
  "pd_read_csv (example_libs reply) (fs configured_world) ''/app/uploads/a1_test_customers.csv'' = Inr 5"
  "environ configured_world ''GEMINI_API_KEY'' = Some ''test-key''"
  "send_message (example_libs reply) request = Inr reply"
  "find_one (churn_analyses configured_world) (by_analysis_id ''a1'') = Some stored_record"
  by (simp_all add: pd_read_csv_def example_libs_def configured_world_def uploaded_world_def
        find_one_def matches_def by_analysis_id_def stored_record_def)



text \<open>The first run, evaluated: the store after the task.\<close>

lemma analyze_plain_reply:
  "churn_analyses (analyze_churn_data (example_libs plain_reply) 200 configured_world ''a1''
      ''/app/uploads/a1_test_customers.csv'' ''test_customers.csv'') =
   [[(''_id'', PObjectId 7),
     (''analysis_id'', PStr ''a1''),
     (''filename'', PStr ''test_customers.csv''),
     (''file_path'', PStr ''/app/uploads/a1_test_customers.csv''),
     (''status'', PStr ''completed_with_errors''),
     (''created_at'', PDatetime 100),
     (''total_customers'', PInt 5),
     (''high_risk_customers'', PNone),
     (''predictions'', PNone),
     (''insights'', PNone),
     (''recommendations'', PNone),
     (''error'', PStr ''JSON parsing error: Expecting value''),
     (''raw_response'', PStr plain_reply),
     (''completed_at'', PDatetime 200)]]"
proof -
  have "json_loads (example_libs plain_reply) (strip_fences plain_reply) =
      Inl (JSONDecodeError ''Expecting value'')"
    by (simp add: example_libs_def strip_plain_reply decode_plain_reply)
  from analyze_parse_failure [OF configured_world_facts(1) configured_world_facts(2) _
         configured_world_facts(3) this]
  show ?thesis
    by (simp add: configured_world_def uploaded_world_def stored_record_def
          matches_by_analysis_id parse_error_fields_def set_fields_def dict_set_def)
qed

text \<open>
  Claim C4, as amended. The claim says that every answer that decodes to an object
  ends in the status \<^verbatim>\<open>completed\<close>. The update of the store stands in the outer \<^verbatim>\<open>try\<close>
  block: when the store takes the update, the record gets the status \<^verbatim>\<open>completed\<close>;
  \<^verbatim>\<open>total_customers\<close> is the value of the answer or else the number of rows of the
  file, \<^verbatim>\<open>high_risk_customers\<close> the value of the answer or else 0, \<^verbatim>\<open>predictions\<close> the
  value of the answer or else the empty list, \<^verbatim>\<open>insights\<close> and \<^verbatim>\<open>recommendations\<close> the
  values of the answer or else the empty string. When the store refuses the update,
  the record gets the status \<^verbatim>\<open>failed\<close> and the text of the exception in \<^verbatim>\<open>error\<close>. In
  both cases \<^verbatim>\<open>completed_at\<close> is set.
\<close>

theorem parse_success_completed_when_stored:
  assumes "pd_read_csv L (fs w) path = Inr rows"
    and "environ w ''GEMINI_API_KEY'' = Some key" and "key \<noteq> []"
    and "send_message L \<lparr>api_key = key, session_id = ''churn_analysis_'' @ aid,
                         row_count = rows, attachment = path\<rparr> = Inr response"
    and "json_loads L (strip_fences response) = Inr (PDict result)"
    and "find_one (churn_analyses w) (by_analysis_id aid) = Some d"
  shows "\<exists>d'. find_one (churn_analyses (analyze_churn_data L now w aid path fname))
                 (by_analysis_id aid) = Some d' \<and>
              map_of d' ''completed_at'' = Some (PDatetime now) \<and>
              (case store_refusal L (completed_fields now rows result) of
                 None \<Rightarrow>
                   map_of d' ''status'' = Some (PStr ''completed'') \<and>
                   map_of d' ''total_customers'' =
                     Some (case map_of result ''total_customers'' of
                             Some v \<Rightarrow> v | None \<Rightarrow> PInt (int rows)) \<and>
                   map_of d' ''high_risk_customers'' =
                     Some (case map_of result ''high_risk_customers'' of
                             Some v \<Rightarrow> v | None \<Rightarrow> PInt 0) \<and>
                   map_of d' ''predictions'' =
                     Some (case map_of result ''predictions'' of
                             Some v \<Rightarrow> v | None \<Rightarrow> PList []) \<and>
                   map_of d' ''insights'' =
                     Some (case map_of result ''insights'' of Some v \<Rightarrow> v | None \<Rightarrow> PStr []) \<and>
                   map_of d' ''recommendations'' =
                     Some (case map_of result ''recommendations'' of
                             Some v \<Rightarrow> v | None \<Rightarrow> PStr [])
               | Some e \<Rightarrow>
                   map_of d' ''status'' = Some (PStr ''failed'') \<and>
                   map_of d' ''error'' = Some (PStr (str_exn e)))"
proof (cases "store_refusal L (completed_fields now rows result)")
  case None
  let ?upd = "completed_fields now rows result"
  have "analyze_churn_data L now w aid path fname =
          w\<lparr>churn_analyses := set_one (churn_analyses w) (by_analysis_id aid) ?upd\<rparr>"
    using assms(1-5) None by (rule analyze_parse_success)
  moreover have "map_of ?upd ''analysis_id'' = None"
    by (simp add: completed_fields_def)
  ultimately have "find_one (churn_analyses (analyze_churn_data L now w aid path fname))
                     (by_analysis_id aid) = Some (set_fields d ?upd)"
    using assms(6) by (simp add: find_one_after_update)
  moreover have "map_of (set_fields d ?upd) ''status'' = Some (PStr ''completed'')"
    "map_of (set_fields d ?upd) ''total_customers'' =
       Some (case map_of result ''total_customers'' of Some v \<Rightarrow> v | None \<Rightarrow> PInt (int rows))"
    "map_of (set_fields d ?upd) ''high_risk_customers'' =
       Some (case map_of result ''high_risk_customers'' of Some v \<Rightarrow> v | None \<Rightarrow> PInt 0)"
    "map_of (set_fields d ?upd) ''predictions'' =
       Some (case map_of result ''predictions'' of Some v \<Rightarrow> v | None \<Rightarrow> PList [])"
    "map_of (set_fields d ?upd) ''insights'' =
       Some (case map_of result ''insights'' of Some v \<Rightarrow> v | None \<Rightarrow> PStr [])"
    "map_of (set_fields d ?upd) ''recommendations'' =
       Some (case map_of result ''recommendations'' of Some v \<Rightarrow> v | None \<Rightarrow> PStr [])"
    "map_of (set_fields d ?upd) ''completed_at'' = Some (PDatetime now)"
    by (simp_all add: map_of_set_fields completed_fields_def map_add_def dict_get_def)
  ultimately show ?thesis
    unfolding None option.case by blast
next
  case (Some e)
  let ?upd = "failed_fields now e"
  have "analyze_churn_data L now w aid path fname =
          w\<lparr>churn_analyses := set_one (churn_analyses w) (by_analysis_id aid) ?upd\<rparr>"
    using assms(1-5) Some by (rule analyze_store_refused)
  moreover have "map_of ?upd ''analysis_id'' = None"
    by (simp add: failed_fields_def)
  ultimately have "find_one (churn_analyses (analyze_churn_data L now w aid path fname))
                     (by_analysis_id aid) = Some (set_fields d ?upd)"
    using assms(6) by (simp add: find_one_after_update)
  moreover have "map_of (set_fields d ?upd) ''status'' = Some (PStr ''failed'')"
    "map_of (set_fields d ?upd) ''error'' = Some (PStr (str_exn e))"
    "map_of (set_fields d ?upd) ''completed_at'' = Some (PDatetime now)"
    by (simp_all add: map_of_set_fields failed_fields_def map_add_def)
  ultimately show ?thesis
    unfolding Some option.case by blast
qed

text \<open>
  The run on a fenced answer that gives three of the five fields: the store takes the
  update, and the two other fields get their defaults.
\<close>

theorem parse_success_completed_when_stored_witness:
  "json_loads (example_libs fenced_reply) (strip_fences fenced_reply) =
     Inr (PDict [(''total_customers'', PInt 5), (''high_risk_customers'', PInt 2),
                 (''insights'', PStr ''Support calls drive churn'')]) \<and>
   find_one (churn_analyses configured_world) (by_analysis_id ''a1'') = Some stored_record \<and>
   (\<exists>d'. find_one
            (churn_analyses
               (analyze_churn_data (example_libs fenced_reply) 200 configured_world ''a1''
                  ''/app/uploads/a1_test_customers.csv'' ''test_customers.csv''))
            (by_analysis_id ''a1'') = Some d' \<and>
         map_of d' ''completed_at'' = Some (PDatetime 200) \<and>
         map_of d' ''status'' = Some (PStr ''completed'') \<and>
         map_of d' ''total_customers'' = Some (PInt 5) \<and>
         map_of d' ''high_risk_customers'' = Some (PInt 2) \<and>
         map_of d' ''predictions'' = Some (PList []) \<and>
         map_of d' ''insights'' = Some (PStr ''Support calls drive churn'') \<and>
         map_of d' ''recommendations'' = Some (PStr []))"
proof -
  let ?result = "[(''total_customers'', PInt 5), (''high_risk_customers'', PInt 2),
                  (''insights'', PStr ''Support calls drive churn'')]"
  have decoded: "json_loads (example_libs fenced_reply) (strip_fences fenced_reply) =
      Inr (PDict ?result)"
    by (simp add: example_libs_def decode_fenced_reply)
  have taken: "store_refusal (example_libs fenced_reply) (completed_fields 200 5 ?result) = None"
    by (simp add: store_refusal_def completed_fields_def dict_get_def example_libs_def
          bson_encode_error_def)
  have "''test-key'' \<noteq> []"
    by simp
  from parse_success_completed_when_stored
         [OF configured_world_facts(1) configured_world_facts(2) this
             configured_world_facts(3) decoded configured_world_facts(4), of 200 "''test_customers.csv''"]
  have "\<exists>d'. find_one
            (churn_analyses
               (analyze_churn_data (example_libs fenced_reply) 200 configured_world ''a1''
                  ''/app/uploads/a1_test_customers.csv'' ''test_customers.csv''))
            (by_analysis_id ''a1'') = Some d' \<and>
         map_of d' ''completed_at'' = Some (PDatetime 200) \<and>
         map_of d' ''status'' = Some (PStr ''completed'') \<and>
         map_of d' ''total_customers'' = Some (PInt 5) \<and>
         map_of d' ''high_risk_customers'' = Some (PInt 2) \<and>
         map_of d' ''predictions'' = Some (PList []) \<and>
         map_of d' ''insights'' = Some (PStr ''Support calls drive churn'') \<and>
         map_of d' ''recommendations'' = Some (PStr [])"
    unfolding taken option.case by simp
  with decoded configured_world_facts(4) show ?thesis
    by blast
qed

text \<open>
  Claim C4 as stated fails: the answer \<^verbatim>\<open>{"total_customers": 9223372036854775808}\<close>
  decodes to an object, the encoder of the driver refuses the integer, and the handler
  of the outer block leaves the record of \<open>a1\<close> in the status \<^verbatim>\<open>failed\<close>.
\<close>

theorem parse_success_overflow_counterexample:
  "json_loads (example_libs overflow_reply) (strip_fences overflow_reply) =
     Inr (PDict [(''total_customers'', PInt 9223372036854775808)]) \<and>
   find_one (churn_analyses configured_world) (by_analysis_id ''a1'') = Some stored_record \<and>
   churn_analyses
     (analyze_churn_data (example_libs overflow_reply) 200 configured_world ''a1''
        ''/app/uploads/a1_test_customers.csv'' ''test_customers.csv'') = [overflow_record] \<and>
   map_of overflow_record ''status'' = Some (PStr ''failed'')"
proof -
  let ?result = "[(''total_customers'', PInt 9223372036854775808)]"
  have "strip_fences overflow_reply = overflow_reply"
    by (simp add: strip_fences_def overflow_reply_def strip_def isspace_def)
  moreover have "json_decode overflow_reply = Inr (PDict ?result)"
    by (simp add: overflow_reply_def decoder_defs)
  ultimately have decoded:
    "json_loads (example_libs overflow_reply) (strip_fences overflow_reply) = Inr (PDict ?result)"
    by (simp add: example_libs_def)
  have refused: "store_refusal (example_libs overflow_reply) (completed_fields 200 5 ?result) =
      Some (OverflowError ''MongoDB can only handle up to 8-byte ints'')"
    by (simp add: store_refusal_def completed_fields_def dict_get_def example_libs_def
          bson_encode_error_def)
  have "churn_analyses
     (analyze_churn_data (example_libs overflow_reply) 200 configured_world ''a1''
        ''/app/uploads/a1_test_customers.csv'' ''test_customers.csv'') = [overflow_record]"
    using analyze_store_refused [OF configured_world_facts(1) configured_world_facts(2) _
            configured_world_facts(3) decoded refused]
    by (simp add: configured_world_def uploaded_world_def stored_record_def overflow_record_def
          matches_by_analysis_id failed_fields_def set_fields_def dict_set_def)
  with decoded configured_world_facts(4) show ?thesis
    by (simp add: overflow_record_def)
qed

section \<open>Terminal states\<close>

lemma uploaded_world_facts:
  "find_one (churn_analyses uploaded_world) (by_analysis_id ''a1'') = Some stored_record"
  "environ uploaded_world ''GEMINI_API_KEY'' = None"
  "pd_read_csv (example_libs reply) (fs uploaded_world) ''/app/uploads/a1_test_customers.csv'' = Inr 5"
  by (simp_all add: pd_read_csv_def example_libs_def uploaded_world_def
        find_one_def matches_def by_analysis_id_def stored_record_def)

lemma reachable_uploaded_world: "reachable uploaded_world"
proof -
  have "reachable fresh_world"
    by (rule reachable.start) (simp add: fresh_world_def)
  then have "reachable (fst (snd (upload_csv fresh_world ''a1'' 7 100 test_csv)))"
    by (rule reachable.upload)
  then show ?thesis
    by (simp add: upload_test_csv)
qed

lemma analyze_without_key: "failed_world = uploaded_world\<lparr>churn_analyses := [failed_record]\<rparr>"
  unfolding failed_world_def
  by (simp add: analyze_missing_key uploaded_world_facts)
     (simp add: uploaded_world_def stored_record_def failed_record_def matches_by_analysis_id
        failed_fields_def set_fields_def dict_set_def)

text \<open>
  Claim C6. A run of the background task on a record of the store leaves it in one of
  the states \<^verbatim>\<open>completed\<close>, \<^verbatim>\<open>completed_with_errors\<close> and \<^verbatim>\<open>failed\<close>, with
  \<^verbatim>\<open>completed_at\<close> set to the time of the run; and in every state a server reaches, a
  record that is not in the state \<^verbatim>\<open>processing\<close> is in one of the three and has its
  \<^verbatim>\<open>completed_at\<close>.
\<close>

theorem terminal_records_carry_completed_at:
  "(find_one (churn_analyses w) (by_analysis_id aid) = Some d \<longrightarrow>
      (\<exists>d'. find_one (churn_analyses (analyze_churn_data L now w aid path fname))
                (by_analysis_id aid) = Some d' \<and>
            terminal_status (map_of d' ''status'') \<and>
            map_of d' ''completed_at'' = Some (PDatetime now))) \<and>
   (reachable w \<longrightarrow>
      (\<forall>d \<in> set (churn_analyses w).
          map_of d ''status'' = Some (PStr ''processing'') \<or>
          terminal_status (map_of d ''status'') \<and>
          (\<exists>t. map_of d ''completed_at'' = Some (PDatetime t))))"
proof (intro conjI impI)
  assume found: "find_one (churn_analyses w) (by_analysis_id aid) = Some d"
  obtain upd where upd: "terminal_update now upd"
    and run: "analyze_churn_data L now w aid path fname =
           w\<lparr>churn_analyses := set_one (churn_analyses w) (by_analysis_id aid) upd\<rparr>"
    using analyze_one_update by blast
  from run found terminal_update_keys(3) [OF upd]
  have "find_one (churn_analyses (analyze_churn_data L now w aid path fname))
          (by_analysis_id aid) = Some (set_fields d upd)"
    by (simp add: find_one_after_update)
  moreover have "terminal_status (map_of (set_fields d upd) ''status'')"
    using terminal_update_status [OF upd]
    by (auto simp: map_of_terminal_update [OF upd] terminal_status_def)
  moreover have "map_of (set_fields d upd) ''completed_at'' = Some (PDatetime now)"
    using terminal_update_keys(1) [OF upd] by (simp add: map_of_terminal_update [OF upd])
  ultimately show "\<exists>d'. find_one (churn_analyses (analyze_churn_data L now w aid path fname))
                (by_analysis_id aid) = Some d' \<and>
            terminal_status (map_of d' ''status'') \<and>
            map_of d' ''completed_at'' = Some (PDatetime now)"
    by blast
next
  assume "reachable w"
  then have "list_all well_formed (churn_analyses w)"
    by (rule reachable_well_formed)
  then show "\<forall>d \<in> set (churn_analyses w).
          map_of d ''status'' = Some (PStr ''processing'') \<or>
          terminal_status (map_of d ''status'') \<and>
          (\<exists>t. map_of d ''completed_at'' = Some (PDatetime t))"
    by (auto simp: list_all_iff well_formed_def)
qed

text \<open>The uploaded record of \<open>a1\<close> and the run that fails for want of a credential.\<close>

theorem terminal_records_carry_completed_at_witness:
  "find_one (churn_analyses uploaded_world) (by_analysis_id ''a1'') = Some stored_record \<and>
   (\<exists>d'. find_one (churn_analyses failed_world) (by_analysis_id ''a1'') = Some d' \<and>
         terminal_status (map_of d' ''status'') \<and>
         map_of d' ''completed_at'' = Some (PDatetime 200)) \<and>
   reachable failed_world \<and>
   failed_record \<in> set (churn_analyses failed_world) \<and>
   (map_of failed_record ''status'' = Some (PStr ''processing'') \<or>
    terminal_status (map_of failed_record ''status'') \<and>
    (\<exists>t. map_of failed_record ''completed_at'' = Some (PDatetime t)))"
proof -
  have reached: "reachable failed_world"
    unfolding failed_world_def by (rule reachable.analyze) (rule reachable_uploaded_world)
  have stored: "failed_record \<in> set (churn_analyses failed_world)"
    by (simp add: analyze_without_key)
  from terminal_records_carry_completed_at
         [of uploaded_world "''a1''" stored_record "example_libs plain_reply" 200
             "''/app/uploads/a1_test_customers.csv''" "''test_customers.csv''"]
    uploaded_world_facts(1)
  have "\<exists>d'. find_one (churn_analyses failed_world) (by_analysis_id ''a1'') = Some d' \<and>
         terminal_status (map_of d' ''status'') \<and>
         map_of d' ''completed_at'' = Some (PDatetime 200)"
    unfolding failed_world_def by blast
  moreover from terminal_records_carry_completed_at [of failed_world] reached stored
  have "map_of failed_record ''status'' = Some (PStr ''processing'') \<or>
    terminal_status (map_of failed_record ''status'') \<and>
    (\<exists>t. map_of failed_record ''completed_at'' = Some (PDatetime t))"
    by blast
  ultimately show ?thesis
    using uploaded_world_facts(1) reached stored by blast
qed

section \<open>A missing credential\<close>

text \<open>
  Claim C9. While \<^verbatim>\<open>GEMINI_API_KEY\<close> is not in the environment, an upload of a CSV file
  to a writable path is answered with success, and a run of the background task on a
  stored record ends with the record in the state \<^verbatim>\<open>failed\<close>, \<^verbatim>\<open>completed_at\<close> set, and
  in \<^verbatim>\<open>error\<close> the text of the exception: that of the reader when the file could not
  be read, otherwise that of the missing credential. The run returns a world: the
  handler of the outer block takes every exception of the block.
\<close>

theorem missing_api_key_fails_job:
  assumes "environ w ''GEMINI_API_KEY'' = None"
  shows "(endswith (filename file) ''.csv'' \<and>
          path_div UPLOAD_DIR (uuid @ ''_'' @ filename file) \<notin> unwritable (fs w) \<longrightarrow>
            (\<exists>w' t. upload_csv w uuid oid now file =
                      (Inr [(''analysis_id'', PStr uuid),
                            (''message'', PStr ''File uploaded successfully. Analysis started.''),
                            (''status'', PStr ''processing'')], w', Some t))) \<and>
         (find_one (churn_analyses w) (by_analysis_id aid) = Some d \<longrightarrow>
            (\<exists>d'. find_one (churn_analyses (analyze_churn_data L later w aid path fname))
                      (by_analysis_id aid) = Some d' \<and>
                  map_of d' ''status'' = Some (PStr ''failed'') \<and>
                  map_of d' ''error'' =
                    Some (PStr (case pd_read_csv L (fs w) path of
                                  Inl e \<Rightarrow> str_exn e
                                | Inr n \<Rightarrow> ''GEMINI_API_KEY not found in environment variables'')) \<and>
                  map_of d' ''completed_at'' = Some (PDatetime later)))"
proof (intro conjI impI)
  assume "endswith (filename file) ''.csv'' \<and>
          path_div UPLOAD_DIR (uuid @ ''_'' @ filename file) \<notin> unwritable (fs w)"
  then show "\<exists>w' t. upload_csv w uuid oid now file =
                      (Inr [(''analysis_id'', PStr uuid),
                            (''message'', PStr ''File uploaded successfully. Analysis started.''),
                            (''status'', PStr ''processing'')], w', Some t)"
    by (simp add: upload_csv_def write_file_def Let_def)
next
  assume found: "find_one (churn_analyses w) (by_analysis_id aid) = Some d"
  let ?e = "case pd_read_csv L (fs w) path of
              Inl e \<Rightarrow> e
            | Inr n \<Rightarrow> Exception ''GEMINI_API_KEY not found in environment variables''"
  let ?upd = "failed_fields later ?e"
  have "map_of ?upd ''analysis_id'' = None"
    by (simp add: failed_fields_def)
  with found have "find_one (churn_analyses (analyze_churn_data L later w aid path fname))
          (by_analysis_id aid) = Some (set_fields d ?upd)"
    by (simp add: analyze_missing_key [OF assms] find_one_after_update)
  moreover have "map_of (set_fields d ?upd) ''status'' = Some (PStr ''failed'')"
    "map_of (set_fields d ?upd) ''completed_at'' = Some (PDatetime later)"
    "map_of (set_fields d ?upd) ''error'' = Some (PStr (str_exn ?e))"
    by (simp_all add: map_of_set_fields failed_fields_def map_add_def)
  moreover have "str_exn ?e = (case pd_read_csv L (fs w) path of
                                  Inl e \<Rightarrow> str_exn e
                                | Inr n \<Rightarrow> ''GEMINI_API_KEY not found in environment variables'')"
    by (simp split: sum.splits)
  ultimately show "\<exists>d'. find_one (churn_analyses (analyze_churn_data L later w aid path fname))
                      (by_analysis_id aid) = Some d' \<and>
                  map_of d' ''status'' = Some (PStr ''failed'') \<and>
                  map_of d' ''error'' =
                    Some (PStr (case pd_read_csv L (fs w) path of
                                  Inl e \<Rightarrow> str_exn e
                                | Inr n \<Rightarrow> ''GEMINI_API_KEY not found in environment variables'')) \<and>
                  map_of d' ''completed_at'' = Some (PDatetime later)"
    by (metis (no_types, lifting))
qed

text \<open>The upload to a fresh server and the run of its task, both without a credential.\<close>

theorem missing_api_key_fails_job_witness:
  "environ fresh_world ''GEMINI_API_KEY'' = None \<and>
   endswith (filename test_csv) ''.csv'' \<and>
   (\<exists>w' t. upload_csv fresh_world ''a1'' 7 100 test_csv =
             (Inr [(''analysis_id'', PStr ''a1''),
                   (''message'', PStr ''File uploaded successfully. Analysis started.''),
                   (''status'', PStr ''processing'')], w', Some t)) \<and>
   environ uploaded_world ''GEMINI_API_KEY'' = None \<and>
   find_one (churn_analyses uploaded_world) (by_analysis_id ''a1'') = Some stored_record \<and>
   (\<exists>d'. find_one (churn_analyses failed_world) (by_analysis_id ''a1'') = Some d' \<and>
         map_of d' ''status'' = Some (PStr ''failed'') \<and>
         map_of d' ''error'' = Some (PStr ''GEMINI_API_KEY not found in environment variables'') \<and>
         map_of d' ''completed_at'' = Some (PDatetime 200))"
proof -
  have no_key: "environ fresh_world ''GEMINI_API_KEY'' = None"
    by (simp add: fresh_world_def)
  have csv: "endswith (filename test_csv) ''.csv''"
    by (simp add: test_csv_def endswith_def)
  have writable: "path_div UPLOAD_DIR (''a1'' @ ''_'' @ filename test_csv) \<notin> unwritable (fs fresh_world)"
    by (simp add: fresh_world_def empty_fs_def)
  from missing_api_key_fails_job [OF no_key, of test_csv "''a1''" 7 100] csv writable
  have submit: "\<exists>w' t. upload_csv fresh_world ''a1'' 7 100 test_csv =
             (Inr [(''analysis_id'', PStr ''a1''),
                   (''message'', PStr ''File uploaded successfully. Analysis started.''),
                   (''status'', PStr ''processing'')], w', Some t)"
    by blast
  from missing_api_key_fails_job
         [OF uploaded_world_facts(2), of _ _ _ _ "''a1''" stored_record "example_libs plain_reply" 200
             "''/app/uploads/a1_test_customers.csv''" "''test_customers.csv''"]
    uploaded_world_facts(1)
  have "\<exists>d'. find_one (churn_analyses failed_world) (by_analysis_id ''a1'') = Some d' \<and>
         map_of d' ''status'' = Some (PStr ''failed'') \<and>
         map_of d' ''error'' = Some (PStr ''GEMINI_API_KEY not found in environment variables'') \<and>
         map_of d' ''completed_at'' = Some (PDatetime 200)"
    unfolding failed_world_def by (simp add: uploaded_world_facts(3))
  with no_key csv submit uploaded_world_facts(1,2) show ?thesis
    by blast
qed

section \<open>Listing the analyses\<close>

lemma length_insert_desc: "length (insert_desc f x xs) = Suc (length xs)"
  by (induction xs) auto

lemma length_sort_desc: "length (sort_desc f xs) = length xs"
  by (induction xs) (auto simp: sort_desc_def length_insert_desc)

lemma mset_insert_desc: "mset (insert_desc f x xs) = add_mset x (mset xs)"
  by (induction xs) auto

lemma mset_sort_desc: "mset (sort_desc f xs) = mset xs"
  by (induction xs) (auto simp: sort_desc_def mset_insert_desc)

lemma set_insert_desc: "set (insert_desc f x xs) = insert x (set xs)"
  by (induction xs) auto

lemma descending_insert_desc:
  "sorted_wrt (\<lambda>a b. f b \<le> f a) xs \<Longrightarrow> sorted_wrt (\<lambda>a b. f b \<le> f a) (insert_desc f x xs)"
  by (induction xs) (auto simp: set_insert_desc)

lemma descending_sort_desc: "sorted_wrt (\<lambda>a b. f b \<le> f a) (sort_desc f xs)"
  by (induction xs) (auto simp: sort_desc_def descending_insert_desc)

lemma created_at_key_strip_id: "created_at_key (strip_id d) = created_at_key d"
proof -
  have "map_of (strip_id d) ''created_at'' = map_of d ''created_at''"
    by (induction d) (auto simp: strip_id_filter)
  then show ?thesis
    by (simp add: created_at_key_def)
qed

lemma descending_take_drop:
  assumes "sorted_wrt (\<lambda>a b. f b \<le> f a) xs"
  shows "\<forall>a \<in> set (take n xs). \<forall>b \<in> set (drop n xs). f b \<le> f a"
proof -
  from assms have "sorted_wrt (\<lambda>a b. f b \<le> f a) (take n xs @ drop n xs)"
    by simp
  then show ?thesis
    unfolding sorted_wrt_append by blast
qed

text \<open>Three records uploaded at the times 100, 300 and 200 are listed newest first.\<close>

lemma recent_analyses_example:
  "recent_analyses
     (fresh_world\<lparr>churn_analyses :=
        [[(''_id'', PObjectId 1), (''created_at'', PDatetime 100)],
         [(''_id'', PObjectId 2), (''created_at'', PDatetime 300)],
         [(''_id'', PObjectId 3), (''created_at'', PDatetime 200)]]\<rparr>) =
   [[(''created_at'', PDatetime 300)], [(''created_at'', PDatetime 200)],
    [(''created_at'', PDatetime 100)]]"
  by (simp add: recent_analyses_def sort_desc_def created_at_key_def strip_id_def dict_in_def
        dict_del_def)

text \<open>
  Claim C8. \<^verbatim>\<open>get_all_analyses\<close> returns a list and no error; the list has at most 20
  records (20, or all of them when the store holds fewer), each a stored record without
  its \<^verbatim>\<open>_id\<close>, in descending order of \<^verbatim>\<open>created_at\<close>; the records left out are no
  newer than the records returned; on an empty store the list is empty.
\<close>

theorem get_all_analyses_newest_first:
  "get_all_analyses w = [(''analyses'', PList (map PDict (recent_analyses w)))] \<and>
   length (recent_analyses w) \<le> 20 \<and>
   length (recent_analyses w) = min 20 (length (churn_analyses w)) \<and>
   sorted_wrt (\<lambda>a b. created_at_key b \<le> created_at_key a) (recent_analyses w) \<and>
   (\<exists>older. mset (map strip_id (churn_analyses w)) = mset (recent_analyses w) + mset older \<and>
            (\<forall>a \<in> set (recent_analyses w). \<forall>b \<in> set older. created_at_key b \<le> created_at_key a)) \<and>
   (churn_analyses w = [] \<longrightarrow> get_all_analyses w = [(''analyses'', PList [])])"
proof -
  let ?sorted = "sort_desc created_at_key (churn_analyses w)"
  let ?older = "map strip_id (drop 20 ?sorted)"
  have recent: "recent_analyses w = map strip_id (take 20 ?sorted)"
    by (simp add: recent_analyses_def)
  have len: "length (recent_analyses w) = min 20 (length (churn_analyses w))"
    by (simp add: recent length_sort_desc min.commute)
  have desc: "sorted_wrt (\<lambda>a b. created_at_key b \<le> created_at_key a) ?sorted"
    by (rule descending_sort_desc)
  then have "sorted_wrt (\<lambda>a b. created_at_key b \<le> created_at_key a) (take 20 ?sorted)"
    by (rule sorted_wrt_take)
  then have sorted: "sorted_wrt (\<lambda>a b. created_at_key b \<le> created_at_key a) (recent_analyses w)"
    by (simp add: recent sorted_wrt_map created_at_key_strip_id)
  have "mset (map strip_id (churn_analyses w)) = mset (map strip_id ?sorted)"
    by (simp add: mset_sort_desc)
  also have "\<dots> = mset (map strip_id (take 20 ?sorted @ drop 20 ?sorted))"
    by simp
  also have "\<dots> = mset (recent_analyses w) + mset ?older"
    unfolding recent map_append mset_append ..
  finally have all: "mset (map strip_id (churn_analyses w)) = mset (recent_analyses w) + mset ?older" .
  have newest: "\<forall>a \<in> set (recent_analyses w). \<forall>b \<in> set ?older. created_at_key b \<le> created_at_key a"
    using descending_take_drop [OF desc, of 20]
    by (auto simp: recent created_at_key_strip_id)
  from all newest
  have rest: "\<exists>older. mset (map strip_id (churn_analyses w)) = mset (recent_analyses w) + mset older \<and>
      (\<forall>a \<in> set (recent_analyses w). \<forall>b \<in> set older. created_at_key b \<le> created_at_key a)"
    by blast
  have shape: "get_all_analyses w = [(''analyses'', PList (map PDict (recent_analyses w)))]"
    by (simp add: get_all_analyses_def)
  have none: "churn_analyses w = [] \<longrightarrow> get_all_analyses w = [(''analyses'', PList [])]"
    by (simp add: get_all_analyses_def recent_analyses_def sort_desc_def)
  from len have "length (recent_analyses w) \<le> 20"
    by simp
  with shape len sorted rest none show ?thesis
    by blast
qed

text \<open>The list of a fresh server.\<close>

theorem get_all_analyses_newest_first_witness:
  "churn_analyses fresh_world = [] \<and> get_all_analyses fresh_world = [(''analyses'', PList [])]"
proof -
  have empty: "churn_analyses fresh_world = []"
    by (simp add: fresh_world_def)
  with get_all_analyses_newest_first [of fresh_world] show ?thesis
    by blast
qed

section \<open>The fields a response exposes\<close>

lemma map_of_strip_id: "k \<noteq> ''_id'' \<Longrightarrow> map_of (strip_id d) k = map_of d k"
  by (induction d) (auto simp: strip_id_filter)

lemma recent_analyses_stored:
  "r \<in> set (recent_analyses w) \<Longrightarrow> \<exists>d \<in> set (churn_analyses w). r = strip_id d"
proof -
  assume "r \<in> set (recent_analyses w)"
  then obtain d where "d \<in> set (take 20 (sort_desc created_at_key (churn_analyses w)))"
    and r: "r = strip_id d"
    by (auto simp: recent_analyses_def)
  then have "d \<in> set (sort_desc created_at_key (churn_analyses w))"
    by (blast dest: in_set_takeD)
  then have "d \<in># mset (sort_desc created_at_key (churn_analyses w))"
    by simp
  then have "d \<in> set (churn_analyses w)"
    by (simp add: mset_sort_desc)
  with r show ?thesis by blast
qed

lemma get_analysis_status_stored:
  assumes "get_analysis_status w aid = Inr r"
  shows "\<exists>d \<in> set (churn_analyses w). map_of d ''analysis_id'' = Some (PStr aid) \<and> r = strip_id d"
proof -
  from assms obtain d where "find_one (churn_analyses w) (by_analysis_id aid) = Some d"
    and r: "r = strip_id d"
    by (auto simp: get_analysis_status_def split: option.splits if_splits)
  then have "d \<in> set (churn_analyses w)" "map_of d ''analysis_id'' = Some (PStr aid)"
    by (auto simp: find_one_by_analysis_id find_Some_iff)
  with r show ?thesis by blast
qed

lemma uploaded_world_responses:
  "get_analysis_status uploaded_world ''a1'' = Inr public_record"
  "recent_analyses uploaded_world = [public_record]"
  by (simp_all add: get_analysis_status_def recent_analyses_def sort_desc_def uploaded_world_def
        stored_record_def public_record_def find_one_def matches_def by_analysis_id_def
        strip_id_def dict_in_def dict_del_def)

text \<open>
  Claim C10. A record returned by \<^verbatim>\<open>get_analysis_status\<close> or listed by
  \<^verbatim>\<open>get_all_analyses\<close> is a stored record from which the field \<^verbatim>\<open>_id\<close> alone was
  removed, so it has the \<^verbatim>\<open>file_path\<close> of the stored record. In every state a server
  reaches, each returned record has a \<^verbatim>\<open>file_path\<close>, and it is the path under the upload
  directory that the upload made of the analysis id and the file name.
\<close>

theorem responses_expose_file_path:
  "(\<forall>r. get_analysis_status w aid = Inr r \<longrightarrow>
      (\<exists>d \<in> set (churn_analyses w).
          r = filter (\<lambda>(k, v). k \<noteq> ''_id'') d \<and>
          map_of r ''file_path'' = map_of d ''file_path'')) \<and>
   (\<forall>r \<in> set (recent_analyses w).
      \<exists>d \<in> set (churn_analyses w).
          r = filter (\<lambda>(k, v). k \<noteq> ''_id'') d \<and>
          map_of r ''file_path'' = map_of d ''file_path'') \<and>
   (reachable w \<longrightarrow>
      (\<forall>r. get_analysis_status w aid = Inr r \<longrightarrow>
         (\<exists>n. map_of r ''filename'' = Some (PStr n) \<and>
              map_of r ''file_path'' = Some (PStr (path_div UPLOAD_DIR (aid @ ''_'' @ n))))) \<and>
      (\<forall>r \<in> set (recent_analyses w).
         \<exists>a n. map_of r ''analysis_id'' = Some (PStr a) \<and>
               map_of r ''filename'' = Some (PStr n) \<and>
               map_of r ''file_path'' = Some (PStr (path_div UPLOAD_DIR (a @ ''_'' @ n)))))"
proof (intro conjI impI allI ballI)
  fix r assume "get_analysis_status w aid = Inr r"
  from get_analysis_status_stored [OF this]
  show "\<exists>d \<in> set (churn_analyses w).
          r = filter (\<lambda>(k, v). k \<noteq> ''_id'') d \<and>
          map_of r ''file_path'' = map_of d ''file_path''"
    by (auto simp: map_of_strip_id simp flip: strip_id_filter)
next
  fix r assume "r \<in> set (recent_analyses w)"
  from recent_analyses_stored [OF this]
  show "\<exists>d \<in> set (churn_analyses w).
          r = filter (\<lambda>(k, v). k \<noteq> ''_id'') d \<and>
          map_of r ''file_path'' = map_of d ''file_path''"
    by (auto simp: map_of_strip_id simp flip: strip_id_filter)
next
  fix r assume reach: "reachable w" and "get_analysis_status w aid = Inr r"
  from get_analysis_status_stored [OF this(2)]
  obtain d where d: "d \<in> set (churn_analyses w)" "map_of d ''analysis_id'' = Some (PStr aid)"
    "r = strip_id d"
    by blast
  from reachable_well_formed [OF reach] d(1) have "well_formed d"
    by (simp add: list_all_iff)
  with d(2) obtain n where "map_of d ''filename'' = Some (PStr n)"
    "map_of d ''file_path'' = Some (PStr (path_div UPLOAD_DIR (aid @ ''_'' @ n)))"
    by (auto simp: well_formed_def)
  with d(3) show "\<exists>n. map_of r ''filename'' = Some (PStr n) \<and>
              map_of r ''file_path'' = Some (PStr (path_div UPLOAD_DIR (aid @ ''_'' @ n)))"
    by (simp add: map_of_strip_id)
next
  fix r assume reach: "reachable w" and "r \<in> set (recent_analyses w)"
  from recent_analyses_stored [OF this(2)]
  obtain d where d: "d \<in> set (churn_analyses w)" "r = strip_id d"
    by blast
  from reachable_well_formed [OF reach] d(1) have "well_formed d"
    by (simp add: list_all_iff)
  then obtain a n where "map_of d ''analysis_id'' = Some (PStr a)"
    "map_of d ''filename'' = Some (PStr n)"
    "map_of d ''file_path'' = Some (PStr (path_div UPLOAD_DIR (a @ ''_'' @ n)))"
    by (auto simp: well_formed_def)
  with d(2) show "\<exists>a n. map_of r ''analysis_id'' = Some (PStr a) \<and>
               map_of r ''filename'' = Some (PStr n) \<and>
               map_of r ''file_path'' = Some (PStr (path_div UPLOAD_DIR (a @ ''_'' @ n)))"
    by (simp add: map_of_strip_id)
qed

text \<open>The two responses after the upload of the test file.\<close>

theorem responses_expose_file_path_witness:
  "reachable uploaded_world \<and>
   get_analysis_status uploaded_world ''a1'' = Inr public_record \<and>
   public_record \<in> set (recent_analyses uploaded_world) \<and>
   (\<exists>n. map_of public_record ''filename'' = Some (PStr n) \<and>
        map_of public_record ''file_path'' = Some (PStr (path_div UPLOAD_DIR (''a1'' @ ''_'' @ n)))) \<and>
   (\<exists>a n. map_of public_record ''analysis_id'' = Some (PStr a) \<and>
          map_of public_record ''filename'' = Some (PStr n) \<and>
          map_of public_record ''file_path'' = Some (PStr (path_div UPLOAD_DIR (a @ ''_'' @ n)))) \<and>
   map_of public_record ''file_path'' = Some (PStr ''/app/uploads/a1_test_customers.csv'')"
proof -
  have listed: "public_record \<in> set (recent_analyses uploaded_world)"
    by (simp add: uploaded_world_responses)
  have path: "map_of public_record ''file_path'' = Some (PStr ''/app/uploads/a1_test_customers.csv'')"
    by (simp add: public_record_def)
  from responses_expose_file_path [of uploaded_world "''a1''"]
    reachable_uploaded_world uploaded_world_responses(1) listed path
  show ?thesis
    by blast
qed

section \<open>Code fences\<close>

lemma startswith_prefix: "startswith s p \<longleftrightarrow> prefix p s"
  by (induction s p rule: startswith.induct) auto

lemma no_fence_at_end:
  assumes "\<not> prefix ''```'' (c # cs)"
  shows "\<not> startswith (c # cs @ ''\<newline>```'') ''```''"
proof (cases cs)
  case Nil
  then show ?thesis by simp
next
  case (Cons a as)
  then show ?thesis using assms by (cases as) auto
qed

lemma replace_fence_at_end:
  "\<not> sublist ''```'' t \<Longrightarrow> replace (t @ ''\<newline>```'') ''```'' [] = t @ ''\<newline>''"
proof (induction t)
  case Nil
  then show ?case by simp
next
  case (Cons c cs)
  then have "\<not> prefix ''```'' (c # cs)" and "\<not> sublist ''```'' cs"
    by (auto simp: sublist_Cons_right)
  with Cons.IH no_fence_at_end [of c cs] show ?case
    by (simp del: startswith.simps)
qed

lemma replace_tagged_fence_at_end:
  "\<not> sublist ''```'' t \<Longrightarrow> replace (t @ ''\<newline>```'') ''```json'' [] = t @ ''\<newline>```''"
proof (induction t)
  case Nil
  then show ?case by simp
next
  case (Cons c cs)
  then have "\<not> prefix ''```'' (c # cs)" and "\<not> sublist ''```'' cs"
    by (auto simp: sublist_Cons_right)
  moreover have "startswith (c # cs @ ''\<newline>```'') ''```json'' \<Longrightarrow>
      startswith (c # cs @ ''\<newline>```'') ''```''"
    by (auto simp: startswith_prefix prefix_def)
  ultimately show ?case
    using Cons.IH no_fence_at_end [of c cs] by (auto simp del: startswith.simps)
qed

lemma strip_padded:
  assumes "\<forall>c \<in> set pre. isspace c" and "\<forall>c \<in> set post. isspace c"
  shows "strip (pre @ t @ post) = strip t"
proof -
  have left: "dropWhile isspace (pre @ t @ post) = dropWhile isspace (t @ post)"
    using assms(1) by (simp add: dropWhile_append2)
  show ?thesis
  proof (cases "\<forall>c \<in> set t. isspace c")
    case True
    with assms(2) have blank: "dropWhile isspace (t @ post) = []" "dropWhile isspace t = []"
      by (simp_all add: dropWhile_eq_Nil_conv)
    show ?thesis
      unfolding strip_def left blank by simp
  next
    case False
    then have kept: "dropWhile isspace (t @ post) = dropWhile isspace t @ post"
      by (auto simp: dropWhile_append1)
    have right: "dropWhile isspace (rev (dropWhile isspace t @ post)) =
        dropWhile isspace (rev (dropWhile isspace t))"
      unfolding rev_append by (rule dropWhile_append2) (use assms(2) in auto)
    show ?thesis
      unfolding strip_def left kept right by simp
  qed
qed

lemma strip_fenced: "strip (fenced tag t) = fenced tag t"
  by (simp add: strip_def fenced_def isspace_def)

lemma strip_fences_fenced:
  assumes "\<not> sublist ''```'' t" and "tag = ''json'' \<or> tag = []"
  shows "strip_fences (fenced tag t) = strip t"
proof -
  have pad: "strip (''\<newline>'' @ t @ ''\<newline>'') = strip t"
    by (rule strip_padded) (simp_all add: isspace_def)
  from assms(2) show ?thesis
  proof
    assume tag: "tag = ''json''"
    have "replace (fenced tag t) ''```json'' [] = ''\<newline>'' @ t @ ''\<newline>```''"
      using replace_tagged_fence_at_end [OF assms(1)] by (simp add: fenced_def tag)
    moreover have "replace (''\<newline>'' @ t @ ''\<newline>```'') ''```'' [] = ''\<newline>'' @ t @ ''\<newline>''"
      using replace_fence_at_end [OF assms(1)] by simp
    moreover have "startswith (fenced tag t) ''```json''"
      by (simp add: fenced_def tag)
    ultimately show ?thesis
      using pad by (simp add: strip_fences_def strip_fenced)
  next
    assume tag: "tag = []"
    have "replace (fenced tag t) ''```'' [] = ''\<newline>'' @ t @ ''\<newline>''"
      using replace_fence_at_end [OF assms(1)] by (simp add: fenced_def tag)
    moreover have "\<not> startswith (fenced tag t) ''```json''" "startswith (fenced tag t) ''```''"
      by (simp_all add: fenced_def tag)
    ultimately show ?thesis
      using pad by (simp add: strip_fences_def strip_fenced)
  qed
qed

lemma fenced_reply_fenced: "fenced_reply = fenced ''json'' reply_json"
  by (simp add: fenced_reply_def fenced_def reply_json_def)

subsection \<open>The decoder and the white space around a text\<close>

text \<open>
  A white space character starts no token, and none of the twelve is part of a number
  or of a constant: a text that decodes still decodes, to the same value, without the
  white space around it.
\<close>

lemma json_ws_isspace: "json_ws c \<Longrightarrow> isspace c"
  by (auto simp: json_ws_def isspace_def)

lemma isspace_no_token_char:
  assumes "isspace c"
  shows "\<not> is_digit c" "c \<notin> set ''.eE+-0ntfNI''" "c \<noteq> CHR 0x22" "map_of punctuation c = None"
    "c \<notin> set ''nultrefasNIiy-''"
  using assms by (auto simp: isspace_def is_digit_def punctuation_def)

lemma startswith_snoc:
  "c \<notin> set p \<Longrightarrow> startswith (s @ [c]) p = startswith s p"
  by (induction s p rule: startswith.induct) auto

lemma startswith_length: "startswith s p \<Longrightarrow> length p \<le> length s"
  by (induction s p rule: startswith.induct) auto

lemma number_sign_snoc: "c \<noteq> CHR ''-'' \<Longrightarrow> number_sign (s @ [c]) = number_sign s"
  by (simp add: number_sign_def startswith_snoc)

lemma number_sign_length: "length (number_sign s) \<le> length s"
  by (auto simp: number_sign_def dest: startswith_length)

lemma int_part_snoc:
  "\<not> is_digit c \<Longrightarrow> c \<noteq> CHR ''0'' \<Longrightarrow> int_part (s @ [c]) = int_part s"
  by (simp add: int_part_def startswith_snoc takeWhile_tail)

lemma int_part_length: "length (int_part s) \<le> length s"
  by (auto simp: int_part_def length_takeWhile_le dest: startswith_length)

lemma frac_part_snoc:
  "\<not> is_digit c \<Longrightarrow> c \<noteq> CHR ''.'' \<Longrightarrow> frac_part (s @ [c]) = frac_part s"
  by (cases s) (simp_all add: frac_part_def takeWhile_tail)

lemma frac_part_length: "length (frac_part s) \<le> length s"
  by (cases s) (auto simp: frac_part_def length_takeWhile_le)

lemma exp_part_snoc:
  assumes "\<not> is_digit c" and "c \<notin> set ''eE+-''"
  shows "exp_part (s @ [c]) = exp_part s"
proof (cases s)
  case Nil
  with assms show ?thesis by (simp add: exp_part_def)
next
  case (Cons e r)
  have sg: "startswith (r @ [c]) ''-'' = startswith r ''-''"
    "startswith (r @ [c]) ''+'' = startswith r ''+''"
    using assms(2) by (simp_all add: startswith_snoc)
  have "takeWhile is_digit (drop n (r @ [c])) = takeWhile is_digit (drop n r)" for n
    using assms(1) by (cases "n \<le> length r") (simp_all add: takeWhile_tail)
  with sg Cons show ?thesis
    by (simp add: exp_part_def Let_def)
qed

lemma exp_part_length: "length (exp_part s) \<le> length s"
proof (cases s)
  case Nil
  then show ?thesis by (simp add: exp_part_def)
next
  case (Cons e r)
  define sg where "sg = (if startswith r ''-'' then ''-'' else if startswith r ''+'' then ''+'' else [])"
  define ds where "ds = takeWhile is_digit (drop (length sg) r)"
  have "length sg \<le> length r"
    by (auto simp: sg_def dest: startswith_length)
  moreover have "length ds \<le> length r - length sg"
    using length_takeWhile_le [of is_digit "drop (length sg) r"] by (simp add: ds_def)
  ultimately have fits: "length (sg @ ds) \<le> length r"
    by simp
  have "exp_part s = (if e \<in> set ''eE'' then (if ds = [] then [] else e # sg @ ds) else [])"
    unfolding exp_part_def Cons ds_def sg_def by (simp only: list.case Let_def)
  with fits Cons show ?thesis
    by (simp del: set_simps)
qed

lemma match_number_snoc:
  assumes "isspace c"
  shows "match_number (s @ [c]) = map_option (\<lambda>(v, r). (v, r @ [c])) (match_number s)"
proof -
  note c = isspace_no_token_char [OF assms]
  have sign: "number_sign (s @ [c]) = number_sign s"
    using c by (simp add: number_sign_snoc)
  define s1 where "s1 = drop (length (number_sign s)) s"
  have s1: "drop (length (number_sign s)) (s @ [c]) = s1 @ [c]"
    using number_sign_length [of s] by (simp add: s1_def)
  have ip: "int_part (s1 @ [c]) = int_part s1"
    using c by (simp add: int_part_snoc)
  define s2 where "s2 = drop (length (int_part s1)) s1"
  have s2: "drop (length (int_part s1)) (s1 @ [c]) = s2 @ [c]"
    using int_part_length [of s1] by (simp add: s2_def)
  have fp: "frac_part (s2 @ [c]) = frac_part s2"
    using c by (simp add: frac_part_snoc)
  define s3 where "s3 = drop (length (frac_part s2)) s2"
  have s3: "drop (length (frac_part s2)) (s2 @ [c]) = s3 @ [c]"
    using frac_part_length [of s2] by (simp add: s3_def)
  have ep: "exp_part (s3 @ [c]) = exp_part s3"
    using c by (simp add: exp_part_snoc)
  have rest: "drop (length (exp_part s3)) (s3 @ [c]) = drop (length (exp_part s3)) s3 @ [c]"
    using exp_part_length [of s3] by simp
  show ?thesis
    unfolding match_number_def Let_def sign s1 ip s2 fp s3 ep rest
    unfolding s1_def [symmetric] s2_def [symmetric] s3_def [symmetric]
    by simp
qed

lemma no_number_without_digit:
  "c \<noteq> CHR ''-'' \<Longrightarrow> \<not> is_digit c \<Longrightarrow> match_number (c # cs) = None"
proof -
  assume "c \<noteq> CHR ''-''" and "\<not> is_digit c"
  moreover from this have "c \<noteq> CHR ''0''"
    by (auto simp: is_digit_def)
  ultimately show ?thesis
    by (simp add: match_number_def number_sign_def int_part_def Let_def)
qed

lemma no_constant_at:
  "c \<notin> set ''ntfNI-'' \<Longrightarrow> match_constant (c # cs) = None"
  by (simp add: match_constant_def constants_def)

lemma next_token_space: "isspace c \<Longrightarrow> next_token (c # cs) = None"
proof -
  assume "isspace c"
  then have "c \<noteq> CHR ''-''" "\<not> is_digit c" "c \<notin> set ''ntfNI-''" "c \<noteq> CHR 0x22"
    "map_of punctuation c = None"
    by (auto simp: isspace_def is_digit_def punctuation_def)
  then show ?thesis
    by (simp add: next_token_def no_number_without_digit no_constant_at)
qed

lemma tokenize_space:
  "isspace c \<Longrightarrow> tokenize (c # cs) = Some ts \<Longrightarrow> tokenize cs = Some ts"
  by (cases "json_ws c") (simp_all add: next_token_space)

lemma tokenize_lstrip: "tokenize s = Some ts \<Longrightarrow> tokenize (dropWhile isspace s) = Some ts"
proof (induction s)
  case Nil
  then show ?case by simp
next
  case (Cons c cs)
  show ?case
  proof (cases "isspace c")
    case True
    from tokenize_space [OF True Cons.prems] have "tokenize cs = Some ts" .
    with Cons.IH True show ?thesis by simp
  next
    case False
    with Cons.prems show ?thesis by (simp del: tokenize.simps)
  qed
qed

lemma match_constant_snoc:
  assumes "isspace c"
  shows "match_constant (s @ [c]) = map_option (\<lambda>(v, r). (v, r @ [c])) (match_constant s)"
proof -
  have "c \<notin> set (fst x)" if "x \<in> set constants" for x
    using that isspace_no_token_char(5) [OF assms]
    by (auto simp: constants_def)
  then have same: "List.find (\<lambda>(w, v). startswith (s @ [c]) w) constants =
      List.find (\<lambda>(w, v). startswith s w) constants"
    by (intro find_cong) (auto simp: startswith_snoc)
  show ?thesis
  proof (cases "List.find (\<lambda>(w, v). startswith s w) constants")
    case None
    with same show ?thesis by (simp add: match_constant_def)
  next
    case (Some x)
    obtain w v where x: "x = (w, v)" by (cases x)
    from Some x have "startswith s w"
      by (auto simp: find_Some_iff)
    then have "length w \<le> length s"
      by (rule startswith_length)
    with same Some x show ?thesis
      by (simp add: match_constant_def)
  qed
qed

lemma scanstring_snoc:
  "scanstring st acc (s @ [c]) = Some (x, r) \<Longrightarrow> c \<noteq> CHR 0x22 \<Longrightarrow>
     \<exists>r'. r = r' @ [c] \<and> scanstring st acc s = Some (x, r')"
proof (induction s arbitrary: st acc)
  case Nil
  then show ?case
    by (cases st) (simp_all add: Let_def split: if_splits option.splits)
next
  case (Cons a s)
  show ?case
  proof (cases st)
    case Plain
    with Cons.prems Cons.IH show ?thesis
      by (simp split: if_splits)
  next
    case Escaped
    with Cons.prems Cons.IH show ?thesis
      by (simp split: if_splits option.splits)
  next
    case (Hex ds)
    with Cons.prems Cons.IH show ?thesis
      by (simp add: Let_def split: if_splits option.splits)
  qed
qed

lemma next_token_snoc:
  assumes "isspace c" and "next_token (a # s @ [c]) = Some (tk, r)"
  shows "\<exists>r'. r = r' @ [c] \<and> next_token (a # s) = Some (tk, r')"
proof (cases "map_of punctuation a")
  case (Some t)
  with assms(2) show ?thesis
    by (simp add: next_token_def)
next
  case None
  show ?thesis
  proof (cases "a = CHR 0x22")
    case True
    with None assms(2) obtain x where "scanstring Plain [] (s @ [c]) = Some (x, r)"
      and tk: "tk = TLit (PStr x)"
      by (auto simp: next_token_def)
    from scanstring_snoc [OF this(1) isspace_no_token_char(3) [OF assms(1)]]
    obtain r' where "r = r' @ [c]" "scanstring Plain [] s = Some (x, r')"
      by blast
    with None True tk show ?thesis
      by (simp add: next_token_def)
  next
    case False
    have number: "match_number ((a # s) @ [c]) =
        map_option (\<lambda>(v, r). (v, r @ [c])) (match_number (a # s))"
      by (rule match_number_snoc [OF assms(1)])
    have word: "match_constant ((a # s) @ [c]) =
        map_option (\<lambda>(v, r). (v, r @ [c])) (match_constant (a # s))"
      by (rule match_constant_snoc [OF assms(1)])
    from assms(2) None False number word show ?thesis
      by (auto simp: next_token_def split: option.splits)
  qed
qed

lemma tokenize_snoc:
  "isspace c \<Longrightarrow> tokenize (s @ [c]) = Some ts \<Longrightarrow> tokenize s = Some ts"
proof (induction s arbitrary: ts rule: tokenize.induct)
  case 1
  then show ?case
    by (cases "json_ws c") (simp_all add: next_token_space)
next
  case (2 a s)
  show ?case
  proof (cases "json_ws a")
    case True
    with "2.prems" have "tokenize (s @ [c]) = Some ts"
      by simp
    with "2.IH"(1) [OF True "2.prems"(1)] True show ?thesis
      by simp
  next
    case False
    with "2.prems"(2) obtain tk r ts' where tok: "next_token (a # s @ [c]) = Some (tk, r)"
      and rest: "tokenize r = Some ts'" and ts: "ts = tk # ts'"
      by (auto split: option.splits)
    from next_token_snoc [OF "2.prems"(1) tok]
    obtain r' where r: "r = r' @ [c]" and tok': "next_token (a # s) = Some (tk, r')"
      by blast
    from rest r have "tokenize (r' @ [c]) = Some ts'"
      by simp
    with "2.IH"(2) [OF False tok' refl "2.prems"(1)] have "tokenize r' = Some ts'"
      by blast
    with False tok' ts show ?thesis
      by simp
  qed
qed

lemma tokenize_rstrip:
  "tokenize s = Some ts \<Longrightarrow> tokenize (rev (dropWhile isspace (rev s))) = Some ts"
proof (induction s rule: rev_induct)
  case Nil
  then show ?case by simp
next
  case (snoc c s)
  show ?case
  proof (cases "isspace c")
    case True
    from tokenize_snoc [OF True snoc.prems] have "tokenize s = Some ts" .
    with snoc.IH True show ?thesis by simp
  next
    case False
    with snoc.prems show ?thesis by simp
  qed
qed

lemma tokenize_strip: "tokenize s = Some ts \<Longrightarrow> tokenize (strip s) = Some ts"
  unfolding strip_def by (intro tokenize_rstrip tokenize_lstrip)

lemma json_decode_strip: "json_decode t = Inr v \<Longrightarrow> json_decode (strip t) = Inr v"
  by (auto simp: json_decode_def split: option.splits dest: tokenize_strip)

text \<open>
  Claim C2, as amended. The claim says that every JSON text in a code fence, with or
  without a language tag, is decoded as the text itself. The code removes every
  occurrence of the marker, and knows the tag \<^verbatim>\<open>json\<close> only. For a text \<open>t\<close> that does
  not contain the marker, fenced with the tag \<^verbatim>\<open>json\<close> or with none, the text handed to
  the decoder is \<open>t\<close> without the white space around it. The result is that of
  decoding \<open>t\<close> for every decoder that does not tell \<open>t\<close> from \<open>t\<close> without that
  white space; so it is for \<open>json_decode\<close> whenever \<open>t\<close> is a JSON text.
\<close>

theorem fenced_json_parses_as_unfenced:
  assumes "\<not> sublist ''```'' t"
    and "tag = ''json'' \<or> tag = []"
  shows "strip_fences (fenced tag t) = strip t \<and>
         (json_loads L (strip t) = json_loads L t \<longrightarrow>
            json_loads L (strip_fences (fenced tag t)) = json_loads L t) \<and>
         (\<forall>v. json_decode t = Inr v \<longrightarrow> json_decode (strip_fences (fenced tag t)) = Inr v)"
  using assms by (simp add: strip_fences_fenced json_decode_strip)

text \<open>The amended claim at the JSON text of the fenced answer.\<close>

theorem fenced_json_parses_as_unfenced_witness:
  "\<not> sublist ''```'' reply_json \<and>
   json_decode reply_json =
     Inr (PDict [(''total_customers'', PInt 5), (''high_risk_customers'', PInt 2),
                 (''insights'', PStr ''Support calls drive churn'')]) \<and>
   strip_fences (fenced ''json'' reply_json) = strip reply_json \<and>
   json_decode (strip_fences (fenced ''json'' reply_json)) =
     Inr (PDict [(''total_customers'', PInt 5), (''high_risk_customers'', PInt 2),
                 (''insights'', PStr ''Support calls drive churn'')])"
proof -
  have no_fence: "\<not> sublist ''```'' reply_json"
    by (simp add: reply_json_def sublist_Cons_right)
  have decoded: "json_decode reply_json =
     Inr (PDict [(''total_customers'', PInt 5), (''high_risk_customers'', PInt 2),
                 (''insights'', PStr ''Support calls drive churn'')])"
    by (simp add: reply_json_def decoder_defs)
  from fenced_json_parses_as_unfenced [OF no_fence, of "''json''"] no_fence decoded
  show ?thesis
    by blast
qed

text \<open>
  Claim C2 as stated fails twice. A JSON text whose string holds the marker loses it:
  the fenced text decodes to another value. And a fence with the tag \<^verbatim>\<open>JSON\<close> keeps its
  tag: the fenced empty object does not decode at all.
\<close>

theorem fenced_json_counterexample:
  "json_decode backticks_json = Inr (PDict [(''insights'', PStr ''Wrap code in ``` marks'')]) \<and>
   json_decode (strip_fences (fenced ''json'' backticks_json)) =
     Inr (PDict [(''insights'', PStr ''Wrap code in  marks'')]) \<and>
   json_decode ''{}'' = Inr (PDict []) \<and>
   json_decode (strip_fences (fenced ''JSON'' ''{}'')) = Inl (JSONDecodeError ''Expecting value'')"
proof -
  have "strip_fences (fenced ''json'' backticks_json) = ''{\"insights\": \"Wrap code in  marks\"}''"
    by (simp add: strip_fences_def fenced_def backticks_json_def strip_def isspace_def)
  moreover have "strip_fences (fenced ''JSON'' ''{}'') = ''JSON\<newline>{}''"
    by (simp add: strip_fences_def fenced_def strip_def isspace_def)
  ultimately show ?thesis
    by (simp add: backticks_json_def decoder_defs)
qed

end
